theory Spec2Isabelle
  imports Main "HOL-Library.Sublist"
begin

section \<open>Integers as text\<close>

text \<open>
  Row ids cross the boundary between JavaScript and SQLite as decimal text:
  \<open>string_of_nat\<close> is \<^verbatim>\<open>toString()\<close> on a row id, \<open>integer_of_text\<close> the integer that a
  text of decimal digits spells (\<open>None\<close> for any other text).
\<close>

definition digit_char :: "nat \<Rightarrow> char" where
  "digit_char d = ''0123456789'' ! d"

fun string_of_nat :: "nat \<Rightarrow> string" where
  "string_of_nat n =
     (if n < 10 then [digit_char n]
      else string_of_nat (n div 10) @ [digit_char (n mod 10)])"

declare string_of_nat.simps [simp del]

definition is_digit :: "char \<Rightarrow> bool" where
  "is_digit c = (c \<in> set ''0123456789'')"

definition digit_value :: "char \<Rightarrow> nat" where
  "digit_value c = length (takeWhile (\<lambda>d. d \<noteq> c) ''0123456789'')"

definition digits_value :: "string \<Rightarrow> nat" where
  "digits_value s = foldl (\<lambda>a c. 10 * a + digit_value c) 0 s"

definition integer_of_text :: "string \<Rightarrow> nat option" where
  "integer_of_text s =
     (if s \<noteq> [] \<and> list_all is_digit s then Some (digits_value s) else None)"

section \<open>Errors raised by the storage classes\<close>

text \<open>
  The classes throw plain JavaScript \<^verbatim>\<open>Error\<close> objects carrying a message; the SQLite
  driver throws errors that carry a \<^verbatim>\<open>code\<close> property (\<^verbatim>\<open>SQLITE_BUSY\<close>,
  \<^verbatim>\<open>SQLITE_CONSTRAINT\<close>, ...); \<^verbatim>\<open>JSON.parse\<close> throws a \<^verbatim>\<open>SyntaxError\<close>.
\<close>

datatype js_error =
    Error string
  | SQLiteError string
  | SyntaxError

fun error_code :: "js_error \<Rightarrow> string option" where
  "error_code (SQLiteError c) = Some c"
| "error_code (Error m) = None"
| "error_code SyntaxError = None"

section \<open>SQLiteAgentStateStorage: the retry wrapper\<close>

text \<open>
  \<^verbatim>\<open>retryOnBusy(operation)\<close> calls the closure once per loop iteration, so the
  closure is modelled by the outcome of its \<open>i\<close>-th call (\<open>Inl\<close>: it threw). A run is
  observed through its outcome, the number of calls it made and the delays it slept, in
  order. \<open>maxRetries\<close> and \<open>retryDelayMs\<close> are natural numbers: a negative
  \<open>maxRetries\<close> runs the loop as \<open>0\<close> does.
\<close>

record 'a retry_run =
  outcome :: "js_error + 'a"
  attempts :: nat
  sleeps :: "nat list"

record retry_config =
  maxRetries :: nat
  retryDelayMs :: nat

record agent_state_options =
  opt_busyTimeout :: "nat option"
  opt_maxRetries :: "nat option"
  opt_retryDelayMs :: "nat option"

text \<open>The constructor's defaults: \<^verbatim>\<open>busyTimeout = 5000, maxRetries = 3, retryDelayMs = 100\<close>.\<close>

definition new_retry_config :: "agent_state_options \<Rightarrow> retry_config" where
  "new_retry_config opts =
     \<lparr>maxRetries = (case opt_maxRetries opts of None \<Rightarrow> 3 | Some n \<Rightarrow> n),
      retryDelayMs = (case opt_retryDelayMs opts of None \<Rightarrow> 100 | Some n \<Rightarrow> n)\<rparr>"

definition is_busy :: "js_error + 'a \<Rightarrow> bool" where
  "is_busy r = (case r of Inl e \<Rightarrow> error_code e = Some ''SQLITE_BUSY'' | Inr v \<Rightarrow> False)"

function retry_loop ::
  "retry_config \<Rightarrow> (nat \<Rightarrow> js_error + 'a) \<Rightarrow> nat \<Rightarrow> nat list \<Rightarrow> 'a retry_run" where
  "retry_loop this operation i slept =
     (if i < maxRetries this then
        (case operation i of
           Inr v \<Rightarrow> \<lparr>outcome = Inr v, attempts = Suc i, sleeps = slept\<rparr>
         | Inl e \<Rightarrow>
             if error_code e = Some ''SQLITE_BUSY'' \<and> i < maxRetries this - 1
             then retry_loop this operation (Suc i) (slept @ [retryDelayMs this * (i + 1)])
             else \<lparr>outcome = Inl e, attempts = Suc i, sleeps = slept\<rparr>)
      else \<lparr>outcome = Inl (Error ''Max retries reached''), attempts = i, sleeps = slept\<rparr>)"
  by pat_completeness auto
termination
  by (relation "measure (\<lambda>(this, operation, i, slept). maxRetries this - i)") auto

definition retryOnBusy :: "retry_config \<Rightarrow> (nat \<Rightarrow> js_error + 'a) \<Rightarrow> 'a retry_run" where
  "retryOnBusy this operation = retry_loop this operation 0 []"

declare retry_loop.simps [simp del]

section \<open>The chat database\<close>

text \<open>
  SQLite is dynamically typed: a column of declared type \<^verbatim>\<open>INTEGER\<close> holds \<^verbatim>\<open>NULL\<close>, an
  integer, or a text that is not the text of a number. A text bound to such a column, or
  compared with it, is read as a number when it is the text of one. Of SQLite's rules for
  that reading the model has one: a text of decimal digits is the integer it spells. Those
  are the texts that \<^verbatim>\<open>toString()\<close> gives for a row id. SQLite also reads texts with blanks
  around the digits, a sign, a fraction or an exponent (\<^verbatim>\<open>' 4'\<close>, \<^verbatim>\<open>'+4'\<close>, \<^verbatim>\<open>'4.0'\<close>,
  \<^verbatim>\<open>'4e0'\<close>) as numbers; the model does not, and every property below that rests on the
  reading is stated for decimal texts (one example uses \<^verbatim>\<open>'agent-123'\<close>, which starts
  with a letter and is a number under no rule).
\<close>

datatype sql_value = SqlNull | SqlInteger nat | SqlText string

definition integer_affinity :: "string \<Rightarrow> sql_value" where
  "integer_affinity s = (case integer_of_text s of Some n \<Rightarrow> SqlInteger n | None \<Rightarrow> SqlText s)"

definition rowid_equals_text :: "nat \<Rightarrow> string \<Rightarrow> bool" where
  "rowid_equals_text i s = (integer_of_text s = Some i)"

text \<open>
  The tables of \<^verbatim>\<open>db/db.sql.ts\<close>. A table is the list of its rows in insertion order,
  with the counter that \<^verbatim>\<open>AUTOINCREMENT\<close> keeps (the largest row id handed out so far).
  \<^verbatim>\<open>foreign_keys\<close> is the connection's pragma of that name: the two foreign keys of
  \<^verbatim>\<open>ChatMessage\<close> are enforced only when it is on.
\<close>

record ChatSession_row =
  cs_id :: nat
  cs_title :: "string option"
  cs_createdAt :: int

record ChatMessage_row =
  cm_id :: nat
  cm_previousMessageId :: sql_value
  cm_sessionId :: int
  cm_request :: string
  cm_response :: "string option"
  cm_createdAt :: int
  cm_updatedAt :: int

record Checkpoint_row =
  cp_id :: nat
  cp_label :: string
  cp_messageId :: sql_value
  cp_createdAt :: int

record chat_db =
  ChatSession :: "ChatSession_row list"
  ChatSession_seq :: nat
  ChatMessage :: "ChatMessage_row list"
  ChatMessage_seq :: nat
  Checkpoint :: "Checkpoint_row list"
  Checkpoint_seq :: nat
  foreign_keys :: bool

definition empty_chat_db :: chat_db where
  "empty_chat_db =
     \<lparr>ChatSession = [], ChatSession_seq = 0, ChatMessage = [], ChatMessage_seq = 0,
      Checkpoint = [], Checkpoint_seq = 0, foreign_keys = False\<rparr>"

text \<open>The row id of the next insert: one more than every id in the table and the counter.\<close>

definition next_rowid :: "nat list \<Rightarrow> nat \<Rightarrow> nat" where
  "next_rowid ids seq = Suc (fold max ids seq)"

section \<open>SQLiteChatHistoryStorage.getChatHistoryByMessageId\<close>

text \<open>
  The method runs one statement, a recursive common table expression without
  \<^verbatim>\<open>ORDER BY\<close>:
  \<^verbatim>\<open>WITH RECURSIVE message_history(...) AS (
      SELECT ... FROM ChatMessage WHERE id = ?
      UNION ALL
      SELECT cm.* FROM ChatMessage cm INNER JOIN message_history mh ON cm.id = mh.previousMessageId)
    SELECT ... FROM message_history\<close>
  SQLite evaluates it with a queue: the rows of the initial select are queued; then, as long
  as the queue is not empty, the row at its front is taken out and added to the result, and
  the rows that the recursive select yields for that single row are queued at the back.
  \<^verbatim>\<open>UNION ALL\<close> keeps duplicates, so nothing stops a row from being queued again.
  \<open>recursive_select\<close> is the recursive select for one row \<open>mh\<close> of
  \<^verbatim>\<open>message_history\<close>; \<open>message_history\<close> is the queue loop, and its value \<open>None\<close>
  says that the loop never ends.
\<close>

definition initial_select :: "ChatMessage_row list \<Rightarrow> string \<Rightarrow> ChatMessage_row list" where
  "initial_select table messageId = filter (\<lambda>cm. rowid_equals_text (cm_id cm) messageId) table"

definition recursive_select :: "ChatMessage_row list \<Rightarrow> ChatMessage_row \<Rightarrow> ChatMessage_row list" where
  "recursive_select table mh =
     filter (\<lambda>cm. SqlInteger (cm_id cm) = cm_previousMessageId mh) table"

partial_function (option) message_history ::
  "ChatMessage_row list \<Rightarrow> ChatMessage_row list \<Rightarrow> ChatMessage_row list
     \<Rightarrow> ChatMessage_row list option" where
  "message_history table queue result =
     (case queue of
        [] \<Rightarrow> Some result
      | mh # rest \<Rightarrow>
          message_history table (rest @ recursive_select table mh) (result @ [mh]))"

definition getChatHistoryByMessageId :: "chat_db \<Rightarrow> string \<Rightarrow> ChatMessage_row list option" where
  "getChatHistoryByMessageId db messageId =
     message_history (ChatMessage db) (initial_select (ChatMessage db) messageId) []"

text \<open>
  Following the links by hand, for stating what a chain and a cycle are: \<open>parent\<close> is the
  stored turn that \<open>previousMessageId\<close> names, \<open>follow table k r\<close> the turn reached from
  \<open>r\<close> after \<open>k\<close> links, and \<open>linked_chain\<close> a list of turns each of which names the
  next as its previous turn, the last one having none.
\<close>

definition parent :: "ChatMessage_row list \<Rightarrow> ChatMessage_row \<Rightarrow> ChatMessage_row option" where
  "parent table r =
     (case cm_previousMessageId r of
        SqlInteger p \<Rightarrow> find (\<lambda>cm. cm_id cm = p) table
      | SqlNull \<Rightarrow> None
      | SqlText t \<Rightarrow> None)"

fun follow :: "ChatMessage_row list \<Rightarrow> nat \<Rightarrow> ChatMessage_row \<Rightarrow> ChatMessage_row option" where
  "follow table 0 r = Some r"
| "follow table (Suc k) r = (case parent table r of None \<Rightarrow> None | Some p \<Rightarrow> follow table k p)"

fun linked_chain :: "ChatMessage_row list \<Rightarrow> bool" where
  "linked_chain [] = True"
| "linked_chain [r] = (cm_previousMessageId r = SqlNull)"
| "linked_chain (r # p # rest) =
     (cm_previousMessageId r = SqlInteger (cm_id p) \<and> linked_chain (p # rest))"

coinductive endless :: "ChatMessage_row list \<Rightarrow> ChatMessage_row \<Rightarrow> bool"
  for table :: "ChatMessage_row list" where
  "p \<in> set (recursive_select table r) \<Longrightarrow> endless table p \<Longrightarrow> endless table r"

text \<open>
  Two stored states used below: a chain \<open>root \<rightarrow> A \<rightarrow> B \<rightarrow> C\<close> with the ids \<open>1, 2, 3, 4\<close>,
  and two turns that name each other as previous turn.
\<close>

definition turn :: "nat \<Rightarrow> sql_value \<Rightarrow> ChatMessage_row" where
  "turn i prev =
     \<lparr>cm_id = i, cm_previousMessageId = prev, cm_sessionId = 1, cm_request = ''{}'',
      cm_response = None, cm_createdAt = 0, cm_updatedAt = 0\<rparr>"

definition chain_db :: chat_db where
  "chain_db = empty_chat_db
     \<lparr>ChatMessage := [turn 1 SqlNull, turn 2 (SqlInteger 1), turn 3 (SqlInteger 2),
                      turn 4 (SqlInteger 3)],
      ChatMessage_seq := 4\<rparr>"

definition cycle_db :: chat_db where
  "cycle_db = empty_chat_db
     \<lparr>ChatMessage := [turn 1 (SqlInteger 2), turn 2 (SqlInteger 1)], ChatMessage_seq := 2\<rparr>"

section \<open>SQLiteAgentStateStorage: storeCheckpoint and retrieveCheckpoint\<close>

text \<open>
  The table, as the package documents its schema:
  \<^verbatim>\<open>CREATE TABLE IF NOT EXISTS AgentState (id INTEGER PRIMARY KEY AUTOINCREMENT,
    agentId TEXT NOT NULL, name TEXT NOT NULL, state TEXT NOT NULL, createdAt INTEGER NOT NULL)\<close>.
  The primary key is its only uniqueness constraint.
\<close>

record AgentState_row =
  as_id :: nat
  as_agentId :: string
  as_name :: string
  as_state :: string
  as_createdAt :: int

record agent_db =
  AgentState :: "AgentState_row list"
  AgentState_seq :: nat

definition empty_agent_db :: agent_db where
  "empty_agent_db = \<lparr>AgentState = [], AgentState_seq = 0\<rparr>"

record 'j NamedAgentCheckpoint =
  nc_agentId :: string
  nc_name :: string
  nc_state :: 'j
  nc_createdAt :: int

record 'j StoredAgentCheckpoint =
  sc_id :: string
  sc_name :: string
  sc_agentId :: string
  sc_state :: 'j
  sc_createdAt :: "int option"

text \<open>
  \<^verbatim>\<open>INSERT OR REPLACE INTO AgentState (agentId, name, state, createdAt) VALUES (?, ?, ?, ?)
  RETURNING id\<close>: the new row gets the next row id; \<^verbatim>\<open>OR REPLACE\<close> first deletes the rows
  that the new row would collide with on a uniqueness constraint, that is, the rows with
  the same \<open>id\<close>. The returned row and the new table are the result.
\<close>

definition insert_or_replace_AgentState ::
  "agent_db \<Rightarrow> string \<Rightarrow> string \<Rightarrow> string \<Rightarrow> int \<Rightarrow> AgentState_row \<times> agent_db" where
  "insert_or_replace_AgentState db agentId name state createdAt =
     (let row = \<lparr>as_id = next_rowid (map as_id (AgentState db)) (AgentState_seq db),
                 as_agentId = agentId, as_name = name, as_state = state,
                 as_createdAt = createdAt\<rparr>
      in (row, \<lparr>AgentState = filter (\<lambda>r. as_id r \<noteq> as_id row) (AgentState db) @ [row],
                 AgentState_seq = as_id row\<rparr>))"

text \<open>
  \<^verbatim>\<open>SELECT id, agentId, name, state FROM AgentState WHERE id = ?\<close> with \<^verbatim>\<open>.get\<close>: the first
  matching row, if any.
\<close>

definition select_AgentState_by_id :: "agent_db \<Rightarrow> string \<Rightarrow> AgentState_row option" where
  "select_AgentState_by_id db param = find (\<lambda>r. rowid_equals_text (as_id r) param) (AgentState db)"

text \<open>
  The driver may throw instead of running a statement (a locked file gives
  \<^verbatim>\<open>SQLITE_BUSY\<close>): \<open>driver i\<close> is the error that the \<open>i\<close>-th call of the closure
  meets, if any. A statement that throws leaves the database as it was.
\<close>

definition run_statement :: "(nat \<Rightarrow> js_error option) \<Rightarrow> 'a \<Rightarrow> nat \<Rightarrow> js_error + 'a" where
  "run_statement driver result i = (case driver i of Some e \<Rightarrow> Inl e | None \<Rightarrow> Inr result)"

text \<open>
  \<^verbatim>\<open>JSON.stringify\<close> and \<^verbatim>\<open>JSON.parse\<close> belong to the runtime; they are parameters
  \<open>stringify\<close> and \<open>parse\<close> (\<open>None\<close>: the text is not JSON and \<^verbatim>\<open>JSON.parse\<close> throws).
  The state of the returned checkpoint has no \<open>createdAt\<close>, since the select does not
  read that column, and its \<open>agentId\<close> is the argument of the call.
\<close>

definition storeCheckpoint ::
  "('j \<Rightarrow> string) \<Rightarrow> retry_config \<Rightarrow> (nat \<Rightarrow> js_error option) \<Rightarrow> agent_db
     \<Rightarrow> 'j NamedAgentCheckpoint \<Rightarrow> (js_error + string) \<times> agent_db" where
  "storeCheckpoint stringify this driver db checkpoint =
     (case outcome (retryOnBusy this (run_statement driver
             (insert_or_replace_AgentState db (nc_agentId checkpoint) (nc_name checkpoint)
                (stringify (nc_state checkpoint)) (nc_createdAt checkpoint)))) of
        Inl e \<Rightarrow> (Inl e, db)
      | Inr (row, db') \<Rightarrow> (Inr (string_of_nat (as_id row)), db'))"

definition retrieveCheckpoint ::
  "(string \<Rightarrow> 'j option) \<Rightarrow> retry_config \<Rightarrow> (nat \<Rightarrow> js_error option) \<Rightarrow> agent_db
     \<Rightarrow> string \<Rightarrow> js_error + 'j StoredAgentCheckpoint option" where
  "retrieveCheckpoint parse this driver db agentId =
     (case outcome (retryOnBusy this (run_statement driver (select_AgentState_by_id db agentId))) of
        Inl e \<Rightarrow> Inl e
      | Inr None \<Rightarrow> Inr None
      | Inr (Some row) \<Rightarrow>
          (case parse (as_state row) of
             None \<Rightarrow> Inl SyntaxError
           | Some state \<Rightarrow>
               Inr (Some \<lparr>sc_id = string_of_nat (as_id row), sc_name = as_name row,
                          sc_agentId = agentId, sc_state = state, sc_createdAt = None\<rparr>)))"

text \<open>
  A driver lets a call through when, within the attempts allowed, one attempt meets no
  error and every attempt before it met \<^verbatim>\<open>SQLITE_BUSY\<close>.
\<close>

definition lets_through :: "retry_config \<Rightarrow> (nat \<Rightarrow> js_error option) \<Rightarrow> bool" where
  "lets_through this driver =
     (\<exists>k < maxRetries this. driver k = None \<and>
        (\<forall>i < k. \<exists>e. driver i = Some e \<and> error_code e = Some ''SQLITE_BUSY''))"

definition quiet :: "nat \<Rightarrow> js_error option" where
  "quiet i = None"

text \<open>The JSON text of a boolean payload, for the examples.\<close>

definition json_of_bool :: "bool \<Rightarrow> string" where
  "json_of_bool b = (if b then ''true'' else ''false'')"

definition bool_of_json :: "string \<Rightarrow> bool option" where
  "bool_of_json s = (if s = ''true'' then Some True else if s = ''false'' then Some False else None)"

definition default_config :: retry_config where
  "default_config =
     new_retry_config \<lparr>opt_busyTimeout = None, opt_maxRetries = None, opt_retryDelayMs = None\<rparr>"

section \<open>SQLiteChatCheckpointStorage.createCheckpoint\<close>

text \<open>
  The method reads only the \<open>id\<close> of the current message, a number or a string in
  JavaScript; \<open>!currentMessage.id\<close> holds for a missing id, for \<open>0\<close> and for the empty
  string. The id is bound to the \<^verbatim>\<open>INTEGER\<close> column \<^verbatim>\<open>messageId\<close>, which has no foreign
  key; what the column then holds is modelled for a number and for a decimal text, and the
  property below says nothing about it for any other text. \<^verbatim>\<open>createdAt\<close> takes its
  default, the clock reading \<open>now\<close>. The third parameter of the method, \<open>sessionId\<close>, is
  not used by it and is left out.
\<close>

datatype js_id = IdUndefined | IdNumber nat | IdString string

record current_message =
  msg_id :: js_id

fun falsy_id :: "js_id \<Rightarrow> bool" where
  "falsy_id IdUndefined = True"
| "falsy_id (IdNumber n) = (n = 0)"
| "falsy_id (IdString s) = (s = [])"

fun bind_id :: "js_id \<Rightarrow> sql_value" where
  "bind_id IdUndefined = SqlNull"
| "bind_id (IdNumber n) = SqlInteger n"
| "bind_id (IdString s) = integer_affinity s"

definition createCheckpoint ::
  "string \<Rightarrow> current_message option \<Rightarrow> int \<Rightarrow> chat_db \<Rightarrow> js_error + Checkpoint_row \<times> chat_db" where
  "createCheckpoint label currentMessage now db =
     (case currentMessage of
        None \<Rightarrow> Inl (Error ''Invalid currentMessage provided for checkpoint creation'')
      | Some m \<Rightarrow>
          if falsy_id (msg_id m)
          then Inl (Error ''Invalid currentMessage provided for checkpoint creation'')
          else
            let row = \<lparr>cp_id = next_rowid (map cp_id (Checkpoint db)) (Checkpoint_seq db),
                       cp_label = label, cp_messageId = bind_id (msg_id m), cp_createdAt = now\<rparr>
            in Inr (row, db\<lparr>Checkpoint := Checkpoint db @ [row], Checkpoint_seq := cp_id row\<rparr>))"

text \<open>Whether an id names a stored turn.\<close>

definition resolves :: "chat_db \<Rightarrow> js_id \<Rightarrow> bool" where
  "resolves db i = (\<exists>cm \<in> set (ChatMessage db). SqlInteger (cm_id cm) = bind_id i)"

section \<open>SQLiteCLIHistoryStorage: add and getAll\<close>

text \<open>
  The characters that \<^verbatim>\<open>String.prototype.trim\<close> strips and that \<^verbatim>\<open>\s\<close> matches, and
  the line terminators that \<^verbatim>\<open>.\<close> does not match, among the characters a \<open>string\<close>
  holds (tab, line feed, vertical tab, form feed, carriage return, space, no-break space).
\<close>

definition is_whitespace :: "char \<Rightarrow> bool" where
  "is_whitespace c = (c \<in> set [CHR 0x09, CHR 0x0A, CHR 0x0B, CHR 0x0C, CHR 0x0D, CHR 0x20, CHR 0xA0])"

definition is_line_terminator :: "char \<Rightarrow> bool" where
  "is_line_terminator c = (c \<in> set [CHR 0x0A, CHR 0x0D])"

text \<open>
  The object holds the database handle, of which only the table \<^verbatim>\<open>CommandHistory(id,
  command, timestamp)\<close> matters here, the cached list \<open>history\<close>, the cursor
  \<open>historyIndex\<close> and the configuration. The constructor merges the caller's
  configuration over \<^verbatim>\<open>{limit: 200}\<close>.
\<close>

record CommandHistory_row =
  ch_id :: nat
  ch_command :: string
  ch_timestamp :: int

record HistoryConfig =
  limit :: nat
  blacklist :: "string list option"

record HistoryOptions =
  opt_limit :: "nat option"
  opt_blacklist :: "string list option"

record cli_history =
  CommandHistory :: "CommandHistory_row list"
  CommandHistory_seq :: nat
  history :: "string list"
  historyIndex :: nat
  config :: HistoryConfig

definition new_cli_history :: "CommandHistory_row list \<Rightarrow> nat \<Rightarrow> HistoryOptions \<Rightarrow> cli_history" where
  "new_cli_history table seq opts =
     \<lparr>CommandHistory = table, CommandHistory_seq = seq, history = [], historyIndex = 0,
      config = \<lparr>limit = (case opt_limit opts of None \<Rightarrow> 200 | Some n \<Rightarrow> n),
                 blacklist = opt_blacklist opts\<rparr>\<rparr>"

text \<open>\<^verbatim>\<open>this.config.limit || 200\<close>: a limit of \<open>0\<close> counts as \<open>200\<close>.\<close>

definition limit_or_200 :: "cli_history \<Rightarrow> nat" where
  "limit_or_200 this = (if limit (config this) = 0 then 200 else limit (config this))"

text \<open>
  \<^verbatim>\<open>DELETE FROM CommandHistory WHERE id NOT IN (SELECT id FROM CommandHistory ORDER BY
  timestamp DESC LIMIT ?)\<close>. Rows with equal timestamps are taken in table order here; SQLite
  leaves their order open.
\<close>

definition newest_ids :: "nat \<Rightarrow> CommandHistory_row list \<Rightarrow> nat list" where
  "newest_ids n table = map ch_id (take n (sort_key (\<lambda>r. - ch_timestamp r) table))"

definition delete_oldest :: "nat \<Rightarrow> CommandHistory_row list \<Rightarrow> CommandHistory_row list" where
  "delete_oldest n table = filter (\<lambda>r. ch_id r \<in> set (newest_ids n table)) table"

text \<open>
  \<open>add\<close> reads the clock once (\<open>now\<close>) and runs one or two statements inside a
  \<^verbatim>\<open>try\<close> whose \<^verbatim>\<open>catch\<close> only logs: \<open>faults\<close> says which of them the driver refuses. When
  the insert throws nothing has changed; when the delete throws the command has been
  inserted and pushed, and neither the trimming nor the reset of the cursor happens.
\<close>

record cli_faults =
  insert_throws :: bool
  delete_throws :: bool

definition no_faults :: cli_faults where
  "no_faults = \<lparr>insert_throws = False, delete_throws = False\<rparr>"

definition blacklisted :: "cli_history \<Rightarrow> string \<Rightarrow> bool" where
  "blacklisted this command =
     (case blacklist (config this) of None \<Rightarrow> False | Some entries \<Rightarrow> command \<in> set entries)"

definition add :: "int \<Rightarrow> cli_faults \<Rightarrow> string \<Rightarrow> cli_history \<Rightarrow> cli_history" where
  "add now faults command this =
     (if list_all is_whitespace command \<or> blacklisted this command then this
      else if history this \<noteq> [] \<and> last (history this) = command then this
      else if insert_throws faults then this
      else
        let row = \<lparr>ch_id = next_rowid (map ch_id (CommandHistory this)) (CommandHistory_seq this),
                   ch_command = command, ch_timestamp = now\<rparr>;
            inserted = this\<lparr>CommandHistory := CommandHistory this @ [row],
                            CommandHistory_seq := ch_id row,
                            history := history this @ [command]\<rparr>
        in if length (history inserted) > limit_or_200 this then
             if delete_throws faults then inserted
             else
               let trimmed = inserted
                     \<lparr>CommandHistory := delete_oldest (limit_or_200 this) (CommandHistory inserted),
                      history := drop (length (history inserted) - limit_or_200 this)
                                   (history inserted)\<rparr>
               in trimmed\<lparr>historyIndex := length (history trimmed)\<rparr>
           else inserted\<lparr>historyIndex := length (history inserted)\<rparr>)"

definition getAll :: "cli_history \<Rightarrow> string list" where
  "getAll this = history this"

text \<open>A sequence of calls of \<open>add\<close>, each with its clock reading, none refused by the driver.\<close>

fun add_all :: "(int \<times> string) list \<Rightarrow> cli_history \<Rightarrow> cli_history" where
  "add_all [] this = this"
| "add_all ((now, command) # calls) this = add_all calls (add now no_faults command this)"

section \<open>SQLiteChatMessageStorage: storeChat and retrieveMessageById\<close>

text \<open>
  Of the request only \<^verbatim>\<open>request.messages\<close> and the \<^verbatim>\<open>content\<close> of its messages are read; a
  request is a record with that field and any others, and a content is a text, on which
  the method calls \<^verbatim>\<open>replace\<close>, or is missing. A stored message is what
  \<open>formatMessage\<close> builds. \<^verbatim>\<open>JSON.stringify\<close> and \<^verbatim>\<open>JSON.parse\<close>, at the types of the
  request and of the response, are the fields of a parameter \<open>J\<close>.
\<close>

record chat_input_message =
  content :: "string option"

record Body =
  messages :: "chat_input_message list option"

record ('q, 'r) StoredChatMessage =
  scm_id :: string
  scm_sessionId :: string
  scm_request :: 'q
  scm_response :: "'r option"
  scm_previousMessageId :: "string option"
  scm_createdAt :: "int option"
  scm_updatedAt :: "int option"

record ('q, 'r) JSON =
  stringify_request :: "'q \<Rightarrow> string"
  parse_request :: "string \<Rightarrow> 'q option"
  stringify_response :: "'r \<Rightarrow> string"
  parse_response :: "string \<Rightarrow> 'r option"

subsection \<open>The title of a new session\<close>

text \<open>
  \<^verbatim>\<open>content.replace(/^(.{1,100})(\s.*|$)/, (_, a) => a)\<close>. The first group takes up to
  100 characters that are not line terminators, as many as it can; the second group needs
  a whitespace character next (and then takes the rest of that line), or else the end of the
  text. The matcher tries the longest first group and shortens it one character at a time
  until the second group matches: \<open>title_group s k\<close> is the length it settles on, trying
  \<open>k, k - 1, ..., 1\<close>. The match, from the start of the text to \<open>match_end\<close>, is replaced
  by the first group; a text without a match stays as it is.
\<close>

definition title_boundary :: "string \<Rightarrow> nat \<Rightarrow> bool" where
  "title_boundary s n = (if n < length s then is_whitespace (s ! n) else n = length s)"

fun title_group :: "string \<Rightarrow> nat \<Rightarrow> nat option" where
  "title_group s 0 = None"
| "title_group s (Suc n) = (if title_boundary s (Suc n) then Some (Suc n) else title_group s n)"

definition match_end :: "string \<Rightarrow> nat \<Rightarrow> nat" where
  "match_end s n =
     (if n < length s
      then Suc n + length (takeWhile (\<lambda>c. \<not> is_line_terminator c) (drop (Suc n) s))
      else n)"

definition replace_title :: "string \<Rightarrow> string" where
  "replace_title s =
     (case title_group s (min 100 (length (takeWhile (\<lambda>c. \<not> is_line_terminator c) s))) of
        None \<Rightarrow> s
      | Some n \<Rightarrow> take n s @ drop (match_end s n) s)"

text \<open>\<^verbatim>\<open>request.messages?.[request.messages.length - 1]?.content\<close>\<close>

definition last_content :: "'a Body_scheme \<Rightarrow> string option" where
  "last_content request =
     (case messages request of
        None \<Rightarrow> None
      | Some ms \<Rightarrow> if ms = [] then None else content (last ms))"

definition session_title :: "'a Body_scheme \<Rightarrow> string" where
  "session_title request =
     (case last_content request of None \<Rightarrow> ''New Chat'' | Some c \<Rightarrow> replace_title c)"

subsection \<open>The statements\<close>

text \<open>
  \<^verbatim>\<open>INSERT INTO ChatSession (title) VALUES (?) RETURNING *\<close> and
  \<^verbatim>\<open>INSERT INTO ChatMessage (sessionId, previousMessageId, request, response) VALUES (?, ?, ?, ?)
  RETURNING id, sessionId, previousMessageId, request, response\<close>. The timestamps take
  their default, the clock reading \<open>now\<close>. The session id is a JavaScript number: an
  integer, or \<^verbatim>\<open>NaN\<close> (\<open>None\<close>), which is bound as \<^verbatim>\<open>NULL\<close> and violates \<^verbatim>\<open>NOT NULL\<close>. With
  the foreign keys enforced, the session and the previous message must exist.
\<close>

definition insert_ChatSession :: "chat_db \<Rightarrow> string \<Rightarrow> int \<Rightarrow> ChatSession_row \<times> chat_db" where
  "insert_ChatSession db title now =
     (let row = \<lparr>cs_id = next_rowid (map cs_id (ChatSession db)) (ChatSession_seq db),
                 cs_title = Some title, cs_createdAt = now\<rparr>
      in (row, db\<lparr>ChatSession := ChatSession db @ [row], ChatSession_seq := cs_id row\<rparr>))"

definition foreign_keys_hold :: "chat_db \<Rightarrow> int \<Rightarrow> sql_value \<Rightarrow> bool" where
  "foreign_keys_hold db sessionId previousMessageId =
     (sessionId \<in> set (map (\<lambda>session. int (cs_id session)) (ChatSession db)) \<and>
      (previousMessageId = SqlNull \<or>
       list_ex (\<lambda>cm. SqlInteger (cm_id cm) = previousMessageId) (ChatMessage db)))"

definition insert_ChatMessage ::
  "chat_db \<Rightarrow> int option \<Rightarrow> sql_value \<Rightarrow> string \<Rightarrow> string \<Rightarrow> int
     \<Rightarrow> js_error + ChatMessage_row \<times> chat_db" where
  "insert_ChatMessage db sessionId previousMessageId request response now =
     (case sessionId of
        None \<Rightarrow> Inl (SQLiteError ''SQLITE_CONSTRAINT_NOTNULL'')
      | Some session \<Rightarrow>
          if foreign_keys db \<and> \<not> foreign_keys_hold db session previousMessageId
          then Inl (SQLiteError ''SQLITE_CONSTRAINT_FOREIGNKEY'')
          else
            let row = \<lparr>cm_id = next_rowid (map cm_id (ChatMessage db)) (ChatMessage_seq db),
                       cm_previousMessageId = previousMessageId, cm_sessionId = session,
                       cm_request = request, cm_response = Some response,
                       cm_createdAt = now, cm_updatedAt = now\<rparr>
            in Inr (row, db\<lparr>ChatMessage := ChatMessage db @ [row], ChatMessage_seq := cm_id row\<rparr>))"

text \<open>
  The row that a statement hands to \<open>formatMessage\<close>: the \<^verbatim>\<open>RETURNING\<close> list of the insert
  leaves the timestamps out, \<^verbatim>\<open>SELECT *\<close> has them.
\<close>

record returned_row =
  rr_id :: nat
  rr_sessionId :: int
  rr_previousMessageId :: sql_value
  rr_request :: string
  rr_response :: "string option"
  rr_createdAt :: "int option"
  rr_updatedAt :: "int option"

definition returning_insert :: "ChatMessage_row \<Rightarrow> returned_row" where
  "returning_insert row =
     \<lparr>rr_id = cm_id row, rr_sessionId = cm_sessionId row,
      rr_previousMessageId = cm_previousMessageId row, rr_request = cm_request row,
      rr_response = cm_response row, rr_createdAt = None, rr_updatedAt = None\<rparr>"


subsection \<open>formatMessage, storeChat, retrieveMessageById\<close>

text \<open>\<^verbatim>\<open>toString()\<close> on a session id, an integer.\<close>

definition string_of_int :: "int \<Rightarrow> string" where
  "string_of_int i =
     (if i < 0 then CHR ''-'' # string_of_nat (nat (- i)) else string_of_nat (nat i))"

fun id_text :: "sql_value \<Rightarrow> string option" where
  "id_text SqlNull = None"
| "id_text (SqlInteger n) = Some (string_of_nat n)"
| "id_text (SqlText t) = Some t"

definition formatMessage ::
  "('q, 'r) JSON \<Rightarrow> returned_row \<Rightarrow> js_error + ('q, 'r) StoredChatMessage" where
  "formatMessage J msg =
     (case parse_request J (rr_request msg) of
        None \<Rightarrow> Inl SyntaxError
      | Some request \<Rightarrow>
          (case (case rr_response msg of
                   None \<Rightarrow> Inr None
                 | Some text \<Rightarrow>
                     if text = [] then Inr None
                     else (case parse_response J text of
                             None \<Rightarrow> Inl SyntaxError
                           | Some response \<Rightarrow> Inr (Some response))) of
             Inl e \<Rightarrow> Inl e
           | Inr response \<Rightarrow>
               Inr \<lparr>scm_id = string_of_nat (rr_id msg),
                    scm_sessionId = string_of_int (rr_sessionId msg),
                    scm_request = request, scm_response = response,
                    scm_previousMessageId = id_text (rr_previousMessageId msg),
                    scm_createdAt = rr_createdAt msg, scm_updatedAt = rr_updatedAt msg\<rparr>))"

text \<open>
  \<^verbatim>\<open>parseInt(text)\<close>, as the language defines it for one argument: leading whitespace is
  skipped, then a sign is read, then a prefix \<^verbatim>\<open>0x\<close> or \<^verbatim>\<open>0X\<close>, which makes the digits
  hexadecimal; the result is the number that the longest run of digits spells, with the
  sign, and \<^verbatim>\<open>NaN\<close> (\<open>None\<close>) when there is no digit. What follows the digits is ignored.
\<close>

definition is_hex_digit :: "char \<Rightarrow> bool" where
  "is_hex_digit c = (c \<in> set ''0123456789abcdefABCDEF'')"

definition hex_digit_value :: "char \<Rightarrow> nat" where
  "hex_digit_value c =
     (if c \<in> set ''ABCDEF'' then 10 + length (takeWhile (\<lambda>d. d \<noteq> c) ''ABCDEF'')
      else length (takeWhile (\<lambda>d. d \<noteq> c) ''0123456789abcdef''))"

definition hex_value :: "string \<Rightarrow> nat" where
  "hex_value s = foldl (\<lambda>a c. 16 * a + hex_digit_value c) 0 s"

definition parseInt :: "string \<Rightarrow> int option" where
  "parseInt text =
     (let trimmed = dropWhile is_whitespace text;
          negative = (take 1 trimmed = ''-'');
          unsigned = (if take 1 trimmed = ''+'' \<or> take 1 trimmed = ''-'' then drop 1 trimmed
                      else trimmed);
          hex = (take 2 unsigned = ''0x'' \<or> take 2 unsigned = ''0X'');
          digits = (if hex then takeWhile is_hex_digit (drop 2 unsigned)
                    else takeWhile is_digit unsigned);
          magnitude = (if hex then hex_value digits else digits_value digits)
      in if digits = [] then None
         else Some (if negative then - int magnitude else int magnitude))"

text \<open>\<^verbatim>\<open>currentMessage?.sessionId\<close> when it is truthy: a session id that is not empty.\<close>

definition truthy_sessionId :: "('q, 'r) StoredChatMessage option \<Rightarrow> string option" where
  "truthy_sessionId currentMessage =
     (case currentMessage of
        None \<Rightarrow> None
      | Some m \<Rightarrow> if scm_sessionId m = [] then None else Some (scm_sessionId m))"

definition storeChat ::
  "('a Body_scheme, 'r) JSON \<Rightarrow> int \<Rightarrow> ('a Body_scheme, 'r) StoredChatMessage option
     \<Rightarrow> 'a Body_scheme \<Rightarrow> 'r \<Rightarrow> chat_db
     \<Rightarrow> (js_error + ('a Body_scheme, 'r) StoredChatMessage) \<times> chat_db" where
  "storeChat J now currentMessage request response db =
     (let (sessionId, db1) =
            (case truthy_sessionId currentMessage of
               Some text \<Rightarrow> (parseInt text, db)
             | None \<Rightarrow>
                 let (chatSession, db') = insert_ChatSession db (session_title request) now
                 in (Some (int (cs_id chatSession)), db'))
      in case insert_ChatMessage db1 sessionId
                (case currentMessage of None \<Rightarrow> SqlNull | Some m \<Rightarrow> integer_affinity (scm_id m))
                (stringify_request J request) (stringify_response J response) now of
           Inl e \<Rightarrow> (Inl e, db1)
         | Inr (msg, db2) \<Rightarrow> (formatMessage J (returning_insert msg), db2))"


text \<open>
  A codec for the examples: it is right for the request \<^verbatim>\<open>{}\<close> and for the responses
  \<^verbatim>\<open>true\<close> and \<^verbatim>\<open>false\<close>.
\<close>

definition example_JSON :: "(Body, bool) JSON" where
  "example_JSON =
     \<lparr>stringify_request = (\<lambda>q. ''{}''),
      parse_request = (\<lambda>s. if s = ''{}'' then Some \<lparr>messages = None\<rparr> else None),
      stringify_response = json_of_bool,
      parse_response = bool_of_json\<rparr>"



section \<open>Properties of the decimal text of integers\<close>

lemma lt10_cases:
  "(d::nat) < 10 \<Longrightarrow> d = 0 \<or> d = 1 \<or> d = 2 \<or> d = 3 \<or> d = 4 \<or> d = 5 \<or> d = 6 \<or> d = 7 \<or> d = 8 \<or> d = 9"
  by arith

lemma digit_char_value: "d < 10 \<Longrightarrow> digit_value (digit_char d) = d"
  using lt10_cases [of d] by (auto simp: digit_value_def digit_char_def)

lemma digit_char_is_digit: "d < 10 \<Longrightarrow> is_digit (digit_char d)"
  using lt10_cases [of d] by (auto simp: is_digit_def digit_char_def)

lemma digits_value_snoc: "digits_value (s @ [c]) = 10 * digits_value s + digit_value c"
  by (simp add: digits_value_def)

lemma string_of_nat_nonempty: "string_of_nat n \<noteq> []"
  by (subst string_of_nat.simps) simp

lemma string_of_nat_digits: "list_all is_digit (string_of_nat n)"
proof (induction n rule: string_of_nat.induct)
  case (1 n)
  show ?case
  proof (cases "n < 10")
    case True
    then show ?thesis
      by (subst string_of_nat.simps) (simp add: digit_char_is_digit)
  next
    case False
    with 1 show ?thesis
      by (subst string_of_nat.simps) (simp add: digit_char_is_digit)
  qed
qed

lemma digits_value_string_of_nat: "digits_value (string_of_nat n) = n"
proof (induction n rule: string_of_nat.induct)
  case (1 n)
  show ?case
  proof (cases "n < 10")
    case True
    then show ?thesis
      by (subst string_of_nat.simps) (simp add: digits_value_def digit_char_value)
  next
    case False
    with 1 show ?thesis
      by (subst string_of_nat.simps) (simp add: digits_value_snoc digit_char_value)
  qed
qed

lemma integer_of_text_string_of_nat [simp]: "integer_of_text (string_of_nat n) = Some n"
  by (simp add: integer_of_text_def string_of_nat_nonempty string_of_nat_digits
      digits_value_string_of_nat)

lemmas text_eval =
  integer_of_text_def is_digit_def digits_value_def digit_value_def digit_char_def
  rowid_equals_text_def integer_affinity_def

lemma string_of_small [simp]:
  "string_of_nat (Suc 0) = ''1''" "string_of_nat 1 = ''1''" "string_of_nat 2 = ''2''" "string_of_nat 3 = ''3''"
  "string_of_nat 4 = ''4''"
  by (simp_all add: string_of_nat.simps digit_char_def)

section \<open>Properties of the retry wrapper\<close>

lemma retry_loop_first_settled:
  assumes "i \<le> k" and "k < maxRetries this"
    and "\<And>j. i \<le> j \<Longrightarrow> j < k \<Longrightarrow> is_busy (operation j)"
    and "\<not> is_busy (operation k) \<or> k = maxRetries this - 1"
  shows "retry_loop this operation i slept =
           \<lparr>outcome = operation k, attempts = Suc k,
            sleeps = slept @ map (\<lambda>n. retryDelayMs this * n) [Suc i..<Suc k]\<rparr>"
  using assms
proof (induction "k - i" arbitrary: i slept)
  case 0
  then have ik: "i = k" by simp
  show ?case
  proof (cases "operation k")
    case (Inl e)
    with 0 ik show ?thesis
      by (subst retry_loop.simps) (auto simp: is_busy_def)
  next
    case (Inr v)
    with 0 ik show ?thesis
      by (subst retry_loop.simps) simp
  qed
next
  case (Suc d)
  then have lt: "i < k" by simp
  then have busy: "is_busy (operation i)" using Suc.prems(3) [of i] by simp
  then obtain e where e: "operation i = Inl e" "error_code e = Some ''SQLITE_BUSY''"
    by (auto simp: is_busy_def split: sum.splits)
  have step: "retry_loop this operation i slept =
      retry_loop this operation (Suc i) (slept @ [retryDelayMs this * (i + 1)])"
    using e lt Suc.prems(2) by (subst retry_loop.simps) simp
  have "retry_loop this operation (Suc i) (slept @ [retryDelayMs this * (i + 1)]) =
      \<lparr>outcome = operation k, attempts = Suc k,
       sleeps = (slept @ [retryDelayMs this * (i + 1)]) @
                map (\<lambda>n. retryDelayMs this * n) [Suc (Suc i)..<Suc k]\<rparr>"
    using Suc.hyps(2) lt Suc.prems by (intro Suc.hyps(1)) auto
  moreover have "[Suc i..<Suc k] = Suc i # [Suc (Suc i)..<Suc k]"
    using lt by (simp add: upt_conv_Cons)
  ultimately show ?case using step by simp
qed

text \<open>Without an attempt allowed the loop body never runs.\<close>

lemma retryOnBusy_no_attempt:
  "maxRetries this = 0 \<Longrightarrow>
     retryOnBusy this operation =
       \<lparr>outcome = Inl (Error ''Max retries reached''), attempts = 0, sleeps = []\<rparr>"
  by (simp add: retryOnBusy_def retry_loop.simps)

text \<open>
  C4. With at least one attempt allowed: when every attempt raises a
  \<^verbatim>\<open>SQLITE_BUSY\<close> error the wrapper calls the operation exactly \<open>maxRetries\<close> times,
  sleeps \<open>retryDelayMs \<times> n\<close> after the \<open>n\<close>-th attempt for \<open>n = 1, ..., maxRetries - 1\<close>,
  and ends with the error of the last attempt, unchanged; and an error that is not
  \<^verbatim>\<open>SQLITE_BUSY\<close>, raised by attempt \<open>k + 1\<close> after \<open>k\<close> busy ones, is the outcome
  at once: \<open>k + 1\<close> calls, and no sleep after it.
\<close>

theorem retryOnBusy_policy:
  assumes "0 < maxRetries this"
  shows "((\<forall>i < maxRetries this. is_busy (operation i)) \<longrightarrow>
            retryOnBusy this operation =
              \<lparr>outcome = operation (maxRetries this - 1), attempts = maxRetries this,
               sleeps = map (\<lambda>n. retryDelayMs this * n) [1..<maxRetries this]\<rparr>
            \<and> is_busy (outcome (retryOnBusy this operation)))
       \<and> (\<forall>k e. k < maxRetries this \<and> (\<forall>i < k. is_busy (operation i))
             \<and> operation k = Inl e \<and> error_code e \<noteq> Some ''SQLITE_BUSY'' \<longrightarrow>
            retryOnBusy this operation =
              \<lparr>outcome = Inl e, attempts = Suc k,
               sleeps = map (\<lambda>n. retryDelayMs this * n) [1..<Suc k]\<rparr>)"
proof (intro conjI impI allI)
  assume busy: "\<forall>i < maxRetries this. is_busy (operation i)"
  have "retry_loop this operation 0 [] =
          \<lparr>outcome = operation (maxRetries this - 1), attempts = Suc (maxRetries this - 1),
           sleeps = [] @ map (\<lambda>n. retryDelayMs this * n) [Suc 0..<Suc (maxRetries this - 1)]\<rparr>"
    using assms busy by (intro retry_loop_first_settled) auto
  then show run: "retryOnBusy this operation =
      \<lparr>outcome = operation (maxRetries this - 1), attempts = maxRetries this,
       sleeps = map (\<lambda>n. retryDelayMs this * n) [1..<maxRetries this]\<rparr>"
    using assms by (simp add: retryOnBusy_def)
  show "is_busy (outcome (retryOnBusy this operation))"
    using run busy assms by simp
next
  fix k e
  assume h: "k < maxRetries this \<and> (\<forall>i < k. is_busy (operation i))
             \<and> operation k = Inl e \<and> error_code e \<noteq> Some ''SQLITE_BUSY''"
  then have "\<not> is_busy (operation k)" by (simp add: is_busy_def)
  with h have "retry_loop this operation 0 [] =
          \<lparr>outcome = operation k, attempts = Suc k,
           sleeps = [] @ map (\<lambda>n. retryDelayMs this * n) [Suc 0..<Suc k]\<rparr>"
    by (intro retry_loop_first_settled) auto
  with h show "retryOnBusy this operation =
      \<lparr>outcome = Inl e, attempts = Suc k,
       sleeps = map (\<lambda>n. retryDelayMs this * n) [1..<Suc k]\<rparr>"
    by (simp add: retryOnBusy_def)
qed

theorem retryOnBusy_policy_witness:
  "retryOnBusy (new_retry_config \<lparr>opt_busyTimeout = None, opt_maxRetries = None, opt_retryDelayMs = None\<rparr>)
      (\<lambda>i. Inl (SQLiteError ''SQLITE_BUSY'') :: js_error + unit) =
     \<lparr>outcome = Inl (SQLiteError ''SQLITE_BUSY''), attempts = 3, sleeps = [100, 200]\<rparr>
   \<and> retryOnBusy (new_retry_config \<lparr>opt_busyTimeout = None, opt_maxRetries = None, opt_retryDelayMs = None\<rparr>)
      (\<lambda>i. if i = 0 then Inl (SQLiteError ''SQLITE_BUSY'') else Inl (Error ''disk full'') :: js_error + unit) =
     \<lparr>outcome = Inl (Error ''disk full''), attempts = 2, sleeps = [100]\<rparr>"
proof -
  let ?cfg = "new_retry_config \<lparr>opt_busyTimeout = None, opt_maxRetries = None, opt_retryDelayMs = None\<rparr>"
  let ?busy = "\<lambda>i::nat. Inl (SQLiteError ''SQLITE_BUSY'') :: js_error + unit"
  let ?full = "\<lambda>i::nat. if i = 0 then Inl (SQLiteError ''SQLITE_BUSY'')
                 else Inl (Error ''disk full'') :: js_error + unit"
  have m: "maxRetries ?cfg = 3" and d: "retryDelayMs ?cfg = 100"
    by (simp_all add: new_retry_config_def)
  have pos: "0 < maxRetries ?cfg" using m by simp
  have upt3: "[Suc 0..<3] = [1, 2]" and upt2: "[Suc 0..<Suc (Suc 0)] = [1]"
    by (simp_all add: upt_rec)
  have "\<forall>i < maxRetries ?cfg. is_busy (?busy i)"
    by (simp add: is_busy_def)
  then have "retryOnBusy ?cfg ?busy =
      \<lparr>outcome = ?busy (maxRetries ?cfg - 1), attempts = maxRetries ?cfg,
       sleeps = map (\<lambda>n. retryDelayMs ?cfg * n) [1..<maxRetries ?cfg]\<rparr>"
    using retryOnBusy_policy [OF pos, of ?busy, THEN conjunct1] by blast
  then have a: "retryOnBusy ?cfg ?busy =
      \<lparr>outcome = Inl (SQLiteError ''SQLITE_BUSY''), attempts = 3, sleeps = [100, 200]\<rparr>"
    by (simp add: m d upt3)
  have "1 < maxRetries ?cfg \<and> (\<forall>i<1. is_busy (?full i))
          \<and> ?full 1 = Inl (Error ''disk full'')
          \<and> error_code (Error ''disk full'') \<noteq> Some ''SQLITE_BUSY''"
    by (simp add: m is_busy_def)
  then have "retryOnBusy ?cfg ?full =
      \<lparr>outcome = Inl (Error ''disk full''), attempts = Suc 1,
       sleeps = map (\<lambda>n. retryDelayMs ?cfg * n) [1..<Suc 1]\<rparr>"
    using retryOnBusy_policy [OF pos, of ?full, THEN conjunct2, rule_format,
        of 1 "Error ''disk full''"] by blast
  then have b: "retryOnBusy ?cfg ?full =
      \<lparr>outcome = Inl (Error ''disk full''), attempts = 2, sleeps = [100]\<rparr>"
    by (simp add: d upt2)
  from a b show ?thesis by simp
qed

section \<open>Properties of getChatHistoryByMessageId\<close>

lemma message_history_Nil [simp]: "message_history table [] result = Some result"
  by (subst message_history.simps) simp

lemma message_history_Cons [simp]:
  "message_history table (mh # rest) result =
     message_history table (rest @ recursive_select table mh) (result @ [mh])"
  by (subst message_history.simps) simp

lemma filter_key_single:
  "distinct (map f xs) \<Longrightarrow> x \<in> set xs \<Longrightarrow> filter (\<lambda>y. f y = f x) xs = [x]"
proof (induction xs)
  case Nil
  then show ?case by simp
next
  case (Cons a xs)
  show ?case
  proof (cases "a = x")
    case True
    have "f x \<notin> f ` set xs"
      using Cons.prems(1) True by simp
    then have "filter (\<lambda>y. f y = f x) xs = []"
      unfolding filter_empty_conv by (metis imageI)
    with True show ?thesis by simp
  next
    case False
    with Cons.prems have x: "x \<in> set xs" by simp
    then have "f a \<noteq> f x" using Cons.prems(1) by auto
    with Cons.IH x Cons.prems(1) show ?thesis by simp
  qed
qed

lemma initial_select_single:
  assumes "distinct (map cm_id table)" and "r \<in> set table"
  shows "initial_select table (string_of_nat (cm_id r)) = [r]"
  using filter_key_single [OF assms]
  by (simp add: initial_select_def rowid_equals_text_def eq_commute [of "cm_id r"])

lemma recursive_select_root: "cm_previousMessageId r = SqlNull \<Longrightarrow> recursive_select table r = []"
  by (simp add: recursive_select_def)

lemma recursive_select_single:
  assumes "distinct (map cm_id table)" and "p \<in> set table"
    and "cm_previousMessageId r = SqlInteger (cm_id p)"
  shows "recursive_select table r = [p]"
  using filter_key_single [OF assms(1,2)] assms(3)
  by (simp add: recursive_select_def)

lemma message_history_chain:
  assumes "distinct (map cm_id table)"
  shows "linked_chain (r # chain) \<Longrightarrow> set (r # chain) \<subseteq> set table \<Longrightarrow>
         message_history table [r] result = Some (result @ r # chain)"
proof (induction chain arbitrary: r result)
  case Nil
  then show ?case by (simp add: recursive_select_root)
next
  case (Cons p chain)
  then have "recursive_select table r = [p]"
    using assms by (intro recursive_select_single) auto
  moreover have "message_history table [p] (result @ [r]) = Some ((result @ [r]) @ p # chain)"
    using Cons.prems by (intro Cons.IH) auto
  ultimately show ?case by simp
qed

text \<open>A turn from which the links never end keeps the queue loop running.\<close>

lemma message_history_endless:
  assumes "message_history table queue result = Some res"
  shows "\<forall>r \<in> set queue. \<not> endless table r"
proof (rule message_history.raw_induct
    [where P = "\<lambda>table queue result res. \<forall>r \<in> set queue. \<not> endless table r", OF _ assms],
    goal_cases)
  case (1 loop table queue result res)
  show ?case
  proof (cases queue)
    case Nil
    then show ?thesis by simp
  next
    case (Cons mh rest)
    with 1(2) have "loop table (rest @ recursive_select table mh) (result @ [mh]) = Some res"
      by simp
    then have ih: "\<forall>r \<in> set (rest @ recursive_select table mh). \<not> endless table r"
      by (rule 1(1))
    have "\<not> endless table mh"
    proof
      assume "endless table mh"
      then obtain p where "p \<in> set (recursive_select table mh)" "endless table p"
        by (auto elim: endless.cases)
      with ih show False by auto
    qed
    with ih Cons show ?thesis by auto
  qed
qed

lemma follow_add: "follow table (j + k) r = (case follow table j r of None \<Rightarrow> None | Some a \<Rightarrow> follow table k a)"
  by (induction j arbitrary: r) (auto split: option.splits)

lemma follow_prefix: "follow table k r \<noteq> None \<Longrightarrow> j \<le> k \<Longrightarrow> follow table j r \<noteq> None"
  using follow_add [of table j "k - j" r] by (auto split: option.splits)

lemma parent_in_recursive_select: "parent table r = Some p \<Longrightarrow> p \<in> set (recursive_select table r)"
  by (auto simp: parent_def recursive_select_def find_Some_iff split: sql_value.splits)

lemma loop_follow_all:
  assumes "follow table m a = Some a" and "0 < m"
  shows "follow table n a \<noteq> None"
proof (induction n rule: less_induct)
  case (less n)
  show ?case
  proof (cases "n \<le> m")
    case True
    with assms(1) show ?thesis by (intro follow_prefix [of table m a n]) auto
  next
    case False
    then have n: "n = m + (n - m)" and "n - m < n" using assms(2) by auto
    with less have "follow table (n - m) a \<noteq> None" by blast
    then have "follow table (m + (n - m)) a \<noteq> None"
      using assms(1) by (simp add: follow_add)
    with n show ?thesis by simp
  qed
qed

lemma endless_if_follow_all:
  assumes "\<forall>n. follow table n r \<noteq> None"
  shows "endless table r"
  using assms
proof (coinduction arbitrary: r)
  case endless
  from endless have "follow table (Suc 0) r \<noteq> None" by blast
  then obtain p where p: "parent table r = Some p" by (auto split: option.splits)
  have "\<forall>n. follow table n p \<noteq> None"
  proof
    fix n
    from endless have "follow table (Suc n) r \<noteq> None" by blast
    with p show "follow table n p \<noteq> None" by simp
  qed
  with p show ?case by (auto dest: parent_in_recursive_select)
qed

lemma revisit_endless:
  assumes "follow table j r = Some a" and "follow table k r = Some a" and "j < k"
  shows "endless table r"
proof -
  have "follow table (j + (k - j)) r = Some a" using assms by simp
  then have loop: "follow table (k - j) a = Some a"
    using assms(1) by (simp add: follow_add)
  have a_all: "\<And>n. follow table n a \<noteq> None"
    using loop assms(3) by (intro loop_follow_all [of table "k - j"]) auto
  have "\<forall>n. follow table n r \<noteq> None"
  proof
    fix n
    show "follow table n r \<noteq> None"
    proof (cases "n \<le> j")
      case True
      with assms(1) show ?thesis by (intro follow_prefix [of table j r n]) auto
    next
      case False
      then have "n = j + (n - j)" by simp
      moreover have "follow table (j + (n - j)) r \<noteq> None"
        using assms(1) a_all by (simp add: follow_add)
      ultimately show ?thesis by simp
    qed
  qed
  then show ?thesis by (rule endless_if_follow_all)
qed

lemma getChatHistory_endless:
  assumes "r \<in> set (ChatMessage db)" and "endless (ChatMessage db) r"
  shows "getChatHistoryByMessageId db (string_of_nat (cm_id r)) = None"
proof (rule ccontr)
  assume "getChatHistoryByMessageId db (string_of_nat (cm_id r)) \<noteq> None"
  then obtain res where
    "message_history (ChatMessage db) (initial_select (ChatMessage db) (string_of_nat (cm_id r))) []
       = Some res"
    by (auto simp: getChatHistoryByMessageId_def)
  then have "\<forall>q \<in> set (initial_select (ChatMessage db) (string_of_nat (cm_id r))).
      \<not> endless (ChatMessage db) q"
    by (rule message_history_endless)
  moreover have "r \<in> set (initial_select (ChatMessage db) (string_of_nat (cm_id r)))"
    using assms(1) by (simp add: initial_select_def rowid_equals_text_def)
  ultimately show False using assms(2) by blast
qed

text \<open>
  C1 (as the code has it). Ids are the primary key, so no two stored turns share one. For
  a chain of stored turns \<open>path = [root, ..., target]\<close>, each naming the one before it as
  its previous turn and the root naming none, the query on the target's id returns exactly
  the turns of the chain, the target first and the root last: the order in which the
  links are followed, which is the reverse of \<open>path\<close>.
\<close>

theorem getChatHistory_chain_order:
  assumes "distinct (map cm_id (ChatMessage db))"
    and "set path \<subseteq> set (ChatMessage db)"
    and "path \<noteq> []"
    and "linked_chain (rev path)"
  shows "getChatHistoryByMessageId db (string_of_nat (cm_id (last path))) = Some (rev path)"
proof -
  from assms(3) obtain r chain where rc: "rev path = r # chain"
    by (cases "rev path") auto
  then have r: "r = last path" using assms(3) by (metis list.sel(1) hd_rev)
  have sub: "set (r # chain) \<subseteq> set (ChatMessage db)"
    using assms(2) rc by (metis set_rev)
  then have "initial_select (ChatMessage db) (string_of_nat (cm_id r)) = [r]"
    using assms(1) by (intro initial_select_single) auto
  moreover have "message_history (ChatMessage db) [r] [] = Some ([] @ r # chain)"
    using assms(1,4) sub rc by (intro message_history_chain) auto
  ultimately have "getChatHistoryByMessageId db (string_of_nat (cm_id r)) = Some (r # chain)"
    by (simp add: getChatHistoryByMessageId_def)
  then have "getChatHistoryByMessageId db (string_of_nat (cm_id r)) = Some (rev path)"
    by (simp only: rc)
  then show ?thesis by (simp only: r)
qed

theorem getChatHistory_chain_order_witness:
  "getChatHistoryByMessageId chain_db (string_of_nat 4) =
     Some [turn 4 (SqlInteger 3), turn 3 (SqlInteger 2), turn 2 (SqlInteger 1), turn 1 SqlNull]"
  using getChatHistory_chain_order
    [of chain_db "[turn 1 SqlNull, turn 2 (SqlInteger 1), turn 3 (SqlInteger 2), turn 4 (SqlInteger 3)]"]
  by (simp add: chain_db_def empty_chat_db_def turn_def)

theorem getChatHistory_root_first_counterexample:
  "getChatHistoryByMessageId chain_db ''4'' \<noteq>
     Some [turn 1 SqlNull, turn 2 (SqlInteger 1), turn 3 (SqlInteger 2), turn 4 (SqlInteger 3)]
   \<and> linked_chain (rev [turn 1 SqlNull, turn 2 (SqlInteger 1), turn 3 (SqlInteger 2),
                         turn 4 (SqlInteger 3)])
   \<and> ChatMessage chain_db =
       [turn 1 SqlNull, turn 2 (SqlInteger 1), turn 3 (SqlInteger 2), turn 4 (SqlInteger 3)]"
  by (simp add: getChatHistoryByMessageId_def initial_select_def recursive_select_def
      chain_db_def empty_chat_db_def turn_def text_eval)

text \<open>
  C2 (as the code has it). When following the links from a stored turn \<open>r\<close> reaches a
  turn \<open>a\<close> after \<open>j\<close> links and reaches it again after \<open>k > j\<close> links, the query on the
  id of \<open>r\<close> never returns: nothing in it records the turns already visited, so it neither
  ends nor raises an error.
\<close>

theorem getChatHistory_cycle_never_returns:
  assumes "r \<in> set (ChatMessage db)"
    and "follow (ChatMessage db) j r = Some a"
    and "follow (ChatMessage db) k r = Some a"
    and "j < k"
  shows "getChatHistoryByMessageId db (string_of_nat (cm_id r)) = None"
  using assms(1) revisit_endless [OF assms(2,3,4)] by (rule getChatHistory_endless)

theorem getChatHistory_cycle_never_returns_witness:
  "getChatHistoryByMessageId cycle_db (string_of_nat 1) = None"
  using getChatHistory_cycle_never_returns
    [of "turn 1 (SqlInteger 2)" cycle_db 0 "turn 1 (SqlInteger 2)" 2]
  by (simp add: cycle_db_def empty_chat_db_def turn_def parent_def numeral_2_eq_2)

theorem getChatHistory_cycle_counterexample:
  "ChatMessage cycle_db = [turn 1 (SqlInteger 2), turn 2 (SqlInteger 1)]
   \<and> getChatHistoryByMessageId cycle_db ''2'' = None"
proof -
  have "follow (ChatMessage cycle_db) (Suc (Suc 0)) (turn 2 (SqlInteger 1)) = Some (turn 2 (SqlInteger 1))"
    by (simp add: cycle_db_def empty_chat_db_def turn_def parent_def)
  then have "endless (ChatMessage cycle_db) (turn 2 (SqlInteger 1))"
    by (intro revisit_endless [of _ 0 _ _ "Suc (Suc 0)"]) auto
  moreover have "turn 2 (SqlInteger 1) \<in> set (ChatMessage cycle_db)"
    by (simp add: cycle_db_def)
  ultimately have "getChatHistoryByMessageId cycle_db (string_of_nat (cm_id (turn 2 (SqlInteger 1)))) = None"
    by (intro getChatHistory_endless)
  then have "getChatHistoryByMessageId cycle_db ''2'' = None" by (simp add: turn_def)
  then show ?thesis by (simp add: cycle_db_def)
qed

text \<open>
  C5 (as the code has it). For a turn id, the decimal text of a row id, that no stored
  turn has, the query returns the empty list of turns; no error is raised.
\<close>

theorem getChatHistory_unknown_id:
  assumes "n \<notin> cm_id ` set (ChatMessage db)"
  shows "getChatHistoryByMessageId db (string_of_nat n) = Some []"
proof -
  have "\<forall>cm \<in> set (ChatMessage db). \<not> rowid_equals_text (cm_id cm) (string_of_nat n)"
    using assms by (auto simp: rowid_equals_text_def)
  then have "initial_select (ChatMessage db) (string_of_nat n) = []"
    by (simp add: initial_select_def filter_empty_conv)
  then show ?thesis by (simp add: getChatHistoryByMessageId_def)
qed

theorem getChatHistory_unknown_id_witness:
  "getChatHistoryByMessageId chain_db ''7'' = Some []"
proof -
  have "7 \<notin> cm_id ` set (ChatMessage chain_db)"
    by (simp add: chain_db_def empty_chat_db_def turn_def)
  then have "getChatHistoryByMessageId chain_db (string_of_nat 7) = Some []"
    by (rule getChatHistory_unknown_id)
  moreover have "string_of_nat 7 = ''7''"
    by (simp add: string_of_nat.simps digit_char_def)
  ultimately show ?thesis by simp
qed

theorem getChatHistory_unknown_id_counterexample:
  "ChatMessage empty_chat_db = [] \<and> getChatHistoryByMessageId empty_chat_db ''1'' = Some []"
  by (simp add: getChatHistoryByMessageId_def initial_select_def empty_chat_db_def)

section \<open>Properties of storeCheckpoint and retrieveCheckpoint\<close>

lemma retryOnBusy_lets_through:
  assumes "lets_through this driver"
  shows "outcome (retryOnBusy this (run_statement driver result)) = Inr result"
proof -
  from assms obtain k where k: "k < maxRetries this" "driver k = None"
    and busy: "\<And>i. i < k \<Longrightarrow> \<exists>e. driver i = Some e \<and> error_code e = Some ''SQLITE_BUSY''"
    unfolding lets_through_def by blast
  have "retry_loop this (run_statement driver result) 0 [] =
      \<lparr>outcome = run_statement driver result k, attempts = Suc k,
       sleeps = [] @ map (\<lambda>n. retryDelayMs this * n) [Suc 0..<Suc k]\<rparr>"
  proof (intro retry_loop_first_settled)
    fix j assume "j < k"
    from busy [OF this] show "is_busy (run_statement driver result j)"
      by (auto simp: is_busy_def run_statement_def)
  next
    show "\<not> is_busy (run_statement driver result k) \<or> k = maxRetries this - 1"
      using k(2) by (simp add: is_busy_def run_statement_def)
  qed (use k in auto)
  then show ?thesis using k(2) by (simp add: retryOnBusy_def run_statement_def)
qed

lemma lets_through_quiet: "0 < maxRetries this \<Longrightarrow> lets_through this quiet"
  by (auto simp: lets_through_def quiet_def)

lemma fold_max_ge: "m \<le> fold max xs (m::nat)"
  by (induction xs arbitrary: m) (auto intro: order_trans [OF max.cobounded2])

lemma fold_max_mem: "x \<in> set xs \<Longrightarrow> x \<le> fold max xs (m::nat)"
proof (induction xs arbitrary: m)
  case Nil
  then show ?case by simp
next
  case (Cons a xs)
  show ?case
  proof (cases "x = a")
    case True
    have "max a m \<le> fold max xs (max a m)" by (rule fold_max_ge)
    with True show ?thesis by simp
  next
    case False
    with Cons show ?thesis by simp
  qed
qed

lemma next_rowid_fresh: "next_rowid ids seq \<notin> set ids"
  using fold_max_mem [of "next_rowid ids seq" ids seq] by (auto simp: next_rowid_def)

lemma insert_or_replace_AgentState_rows:
  "insert_or_replace_AgentState db a n s c = (row, db') \<Longrightarrow>
     AgentState db' = AgentState db @ [row] \<and> as_id row \<notin> as_id ` set (AgentState db)
     \<and> as_agentId row = a \<and> as_name row = n \<and> as_state row = s \<and> as_createdAt row = c"
proof -
  assume h: "insert_or_replace_AgentState db a n s c = (row, db')"
  let ?i = "next_rowid (map as_id (AgentState db)) (AgentState_seq db)"
  have fresh: "?i \<notin> as_id ` set (AgentState db)"
    using next_rowid_fresh [of "map as_id (AgentState db)" "AgentState_seq db"] by simp
  then have "filter (\<lambda>r. as_id r \<noteq> ?i) (AgentState db) = AgentState db"
    unfolding filter_id_conv by (metis imageI)
  with h fresh show ?thesis
    by (auto simp: insert_or_replace_AgentState_def Let_def)
qed

lemma find_snoc:
  "find P (xs @ [y]) = (case find P xs of None \<Rightarrow> (if P y then Some y else None) | Some x \<Rightarrow> Some x)"
  by (induction xs) auto

lemma find_rowid_fresh:
  assumes "f row \<notin> f ` set rows"
  shows "find (\<lambda>r. rowid_equals_text (f r) (string_of_nat (f row))) (rows @ [row]) = Some row"
proof -
  have "find (\<lambda>r. rowid_equals_text (f r) (string_of_nat (f row))) rows = None"
    using assms by (auto simp: find_None_iff rowid_equals_text_def)
  then show ?thesis by (simp add: find_snoc rowid_equals_text_def)
qed

lemma storeCheckpoint_lets_through:
  assumes "lets_through this driver"
  shows "storeCheckpoint stringify this driver db checkpoint =
     (Inr (string_of_nat (as_id (fst (insert_or_replace_AgentState db (nc_agentId checkpoint)
         (nc_name checkpoint) (stringify (nc_state checkpoint)) (nc_createdAt checkpoint))))),
      snd (insert_or_replace_AgentState db (nc_agentId checkpoint)
         (nc_name checkpoint) (stringify (nc_state checkpoint)) (nc_createdAt checkpoint)))"
  by (simp add: storeCheckpoint_def retryOnBusy_lets_through [OF assms] split: prod.splits)

lemma default_config_positive: "0 < maxRetries default_config"
  by (simp add: default_config_def new_retry_config_def)

text \<open>
  C3 (as the code has it). For a payload that \<open>parse\<close> reads back from its
  \<open>stringify\<close> text, and a driver that lets both calls through: \<open>storeCheckpoint\<close>
  returns the id of the new row, and \<open>retrieveCheckpoint\<close> called with that id returns a
  stored checkpoint with that id, the stored name and a state equal to the payload. The
  lookup is by row id; the agent id and the name of the checkpoint play no part in it.
\<close>

theorem storeCheckpoint_retrieve_by_id:
  assumes "parse (stringify (nc_state checkpoint)) = Some (nc_state checkpoint)"
    and "lets_through this driver"
    and "lets_through this driver'"
  shows "\<exists>sid db' stored.
           storeCheckpoint stringify this driver db checkpoint = (Inr sid, db')
           \<and> retrieveCheckpoint parse this driver' db' sid = Inr (Some stored)
           \<and> sc_state stored = nc_state checkpoint
           \<and> sc_name stored = nc_name checkpoint
           \<and> sc_id stored = sid"
proof -
  obtain row db' where ins: "insert_or_replace_AgentState db (nc_agentId checkpoint)
      (nc_name checkpoint) (stringify (nc_state checkpoint)) (nc_createdAt checkpoint) = (row, db')"
    by (cases "insert_or_replace_AgentState db (nc_agentId checkpoint)
      (nc_name checkpoint) (stringify (nc_state checkpoint)) (nc_createdAt checkpoint)")
  note rows = insert_or_replace_AgentState_rows [OF ins]
  have store: "storeCheckpoint stringify this driver db checkpoint =
      (Inr (string_of_nat (as_id row)), db')"
    using ins by (simp add: storeCheckpoint_lets_through [OF assms(2)])
  have sel: "select_AgentState_by_id db' (string_of_nat (as_id row)) = Some row"
    using rows find_rowid_fresh [of as_id row "AgentState db"]
    by (simp add: select_AgentState_by_id_def)
  have "retrieveCheckpoint parse this driver' db' (string_of_nat (as_id row)) =
      Inr (Some \<lparr>sc_id = string_of_nat (as_id row), sc_name = nc_name checkpoint,
                 sc_agentId = string_of_nat (as_id row), sc_state = nc_state checkpoint,
                 sc_createdAt = None\<rparr>)"
    using rows assms(1)
    by (simp add: retrieveCheckpoint_def retryOnBusy_lets_through [OF assms(3)] sel)
  with store show ?thesis by auto
qed

theorem storeCheckpoint_retrieve_by_id_witness:
  "\<exists>sid db' stored.
     storeCheckpoint json_of_bool default_config quiet empty_agent_db
       \<lparr>nc_agentId = ''agent-123'', nc_name = ''session-1'', nc_state = True, nc_createdAt = 1\<rparr>
       = (Inr sid, db')
     \<and> retrieveCheckpoint bool_of_json default_config quiet db' sid = Inr (Some stored)
     \<and> sc_state stored = True \<and> sc_name stored = ''session-1'' \<and> sc_id stored = sid"
  using storeCheckpoint_retrieve_by_id [of bool_of_json json_of_bool
      "\<lparr>nc_agentId = ''agent-123'', nc_name = ''session-1'', nc_state = True, nc_createdAt = 1\<rparr>"
      default_config quiet quiet empty_agent_db]
  by (simp add: lets_through_quiet default_config_positive json_of_bool_def bool_of_json_def)

theorem retrieveCheckpoint_by_key_counterexample:
  "storeCheckpoint json_of_bool default_config quiet empty_agent_db
     \<lparr>nc_agentId = ''agent-123'', nc_name = ''session-1'', nc_state = True, nc_createdAt = 1\<rparr>
     = (Inr ''1'',
        \<lparr>AgentState = [\<lparr>as_id = 1, as_agentId = ''agent-123'', as_name = ''session-1'',
                         as_state = ''true'', as_createdAt = 1\<rparr>],
         AgentState_seq = 1\<rparr>)
   \<and> retrieveCheckpoint bool_of_json default_config quiet
       \<lparr>AgentState = [\<lparr>as_id = 1, as_agentId = ''agent-123'', as_name = ''session-1'',
                        as_state = ''true'', as_createdAt = 1\<rparr>],
        AgentState_seq = 1\<rparr> ''agent-123''
     = Inr None"
  by (simp add: storeCheckpoint_lets_through retrieveCheckpoint_def retryOnBusy_lets_through
      lets_through_quiet default_config_positive insert_or_replace_AgentState_def
      select_AgentState_by_id_def next_rowid_def empty_agent_db_def json_of_bool_def text_eval
      Let_def)

text \<open>
  C6 (what the code does). Two calls of \<open>storeCheckpoint\<close> with the same agent id and
  name, let through by the driver, add two rows: the table afterwards is the table before
  followed by a row holding the first payload and a row holding the second, under
  different ids. The earlier row is still there.
\<close>

theorem storeCheckpoint_twice_keeps_both:
  assumes "lets_through this driver" and "lets_through this driver'"
    and "storeCheckpoint stringify this driver db
           \<lparr>nc_agentId = agentId, nc_name = name, nc_state = p1, nc_createdAt = t1\<rparr> = (r1, db1)"
    and "storeCheckpoint stringify this driver' db1
           \<lparr>nc_agentId = agentId, nc_name = name, nc_state = p2, nc_createdAt = t2\<rparr> = (r2, db2)"
  shows "\<exists>i1 i2. i1 \<noteq> i2 \<and> r1 = Inr (string_of_nat i1) \<and> r2 = Inr (string_of_nat i2) \<and>
           AgentState db2 = AgentState db @
             [\<lparr>as_id = i1, as_agentId = agentId, as_name = name, as_state = stringify p1,
               as_createdAt = t1\<rparr>,
              \<lparr>as_id = i2, as_agentId = agentId, as_name = name, as_state = stringify p2,
               as_createdAt = t2\<rparr>]"
proof -
  obtain row1 d1 where ins1:
    "insert_or_replace_AgentState db agentId name (stringify p1) t1 = (row1, d1)"
    by (cases "insert_or_replace_AgentState db agentId name (stringify p1) t1")
  obtain row2 d2 where ins2:
    "insert_or_replace_AgentState d1 agentId name (stringify p2) t2 = (row2, d2)"
    by (cases "insert_or_replace_AgentState d1 agentId name (stringify p2) t2")
  note rows1 = insert_or_replace_AgentState_rows [OF ins1]
  note rows2 = insert_or_replace_AgentState_rows [OF ins2]
  have s1: "r1 = Inr (string_of_nat (as_id row1))" "db1 = d1"
    using assms(3) ins1 by (simp_all add: storeCheckpoint_lets_through [OF assms(1)])
  have s2: "r2 = Inr (string_of_nat (as_id row2))" "db2 = d2"
    using assms(4) ins2 s1(2) by (simp_all add: storeCheckpoint_lets_through [OF assms(2)])
  have ne: "as_id row1 \<noteq> as_id row2"
    using rows1 rows2 by auto
  have e1: "row1 = \<lparr>as_id = as_id row1, as_agentId = agentId, as_name = name,
      as_state = stringify p1, as_createdAt = t1\<rparr>"
    using rows1 by simp
  have e2: "row2 = \<lparr>as_id = as_id row2, as_agentId = agentId, as_name = name,
      as_state = stringify p2, as_createdAt = t2\<rparr>"
    using rows2 by simp
  have "AgentState db2 = AgentState db @ [row1, row2]"
    using rows1 rows2 s2(2) by simp
  with e1 e2 have "AgentState db2 = AgentState db @
             [\<lparr>as_id = as_id row1, as_agentId = agentId, as_name = name, as_state = stringify p1,
               as_createdAt = t1\<rparr>,
              \<lparr>as_id = as_id row2, as_agentId = agentId, as_name = name, as_state = stringify p2,
               as_createdAt = t2\<rparr>]"
    by simp
  with ne s1(1) s2(1) show ?thesis by blast
qed

theorem storeCheckpoint_twice_keeps_both_witness:
  "length (filter (\<lambda>r. as_agentId r = ''agent-123'' \<and> as_name r = ''session-1'')
     (AgentState (snd (storeCheckpoint json_of_bool default_config quiet
        (snd (storeCheckpoint json_of_bool default_config quiet empty_agent_db
           \<lparr>nc_agentId = ''agent-123'', nc_name = ''session-1'', nc_state = True, nc_createdAt = 1\<rparr>))
        \<lparr>nc_agentId = ''agent-123'', nc_name = ''session-1'', nc_state = False, nc_createdAt = 2\<rparr>)))) = 2
   \<and> map as_state (AgentState (snd (storeCheckpoint json_of_bool default_config quiet
        (snd (storeCheckpoint json_of_bool default_config quiet empty_agent_db
           \<lparr>nc_agentId = ''agent-123'', nc_name = ''session-1'', nc_state = True, nc_createdAt = 1\<rparr>))
        \<lparr>nc_agentId = ''agent-123'', nc_name = ''session-1'', nc_state = False, nc_createdAt = 2\<rparr>)))
     = [''true'', ''false'']"
proof -
  let ?c1 = "\<lparr>nc_agentId = ''agent-123'', nc_name = ''session-1'', nc_state = True, nc_createdAt = 1\<rparr>"
  let ?c2 = "\<lparr>nc_agentId = ''agent-123'', nc_name = ''session-1'', nc_state = False, nc_createdAt = 2\<rparr>"
  let ?s1 = "storeCheckpoint json_of_bool default_config quiet empty_agent_db ?c1"
  let ?s2 = "storeCheckpoint json_of_bool default_config quiet (snd ?s1) ?c2"
  have q: "lets_through default_config quiet"
    by (simp add: lets_through_quiet default_config_positive)
  have "\<exists>i1 i2. i1 \<noteq> i2 \<and> fst ?s1 = Inr (string_of_nat i1) \<and> fst ?s2 = Inr (string_of_nat i2) \<and>
      AgentState (snd ?s2) = AgentState empty_agent_db @
        [\<lparr>as_id = i1, as_agentId = ''agent-123'', as_name = ''session-1'',
          as_state = json_of_bool True, as_createdAt = 1\<rparr>,
         \<lparr>as_id = i2, as_agentId = ''agent-123'', as_name = ''session-1'',
          as_state = json_of_bool False, as_createdAt = 2\<rparr>]"
    by (rule storeCheckpoint_twice_keeps_both [OF q q]) simp_all
  then show ?thesis
    by (auto simp: empty_agent_db_def json_of_bool_def)
qed

section \<open>Properties of createCheckpoint\<close>

text \<open>
  C7 (as the code has it). \<open>createCheckpoint\<close> fails, with the error
  \<^verbatim>\<open>Invalid currentMessage provided for checkpoint creation\<close>, when the current message is
  absent or its id is absent (or \<open>0\<close>, or empty). In every other case it succeeds and adds
  one checkpoint row that holds the label and the clock reading, and, for an id that is a
  number or the decimal text of one, that number as its message id: whether a stored turn
  has that id is not looked at.
\<close>

theorem createCheckpoint_validation:
  "((currentMessage = None \<or> (\<exists>m. currentMessage = Some m \<and> falsy_id (msg_id m))) \<longrightarrow>
      createCheckpoint label currentMessage now db =
        Inl (Error ''Invalid currentMessage provided for checkpoint creation''))
   \<and> (\<forall>m. currentMessage = Some m \<and> \<not> falsy_id (msg_id m) \<longrightarrow>
        (\<exists>row db'. createCheckpoint label currentMessage now db = Inr (row, db')
           \<and> Checkpoint db' = Checkpoint db @ [row]
           \<and> ChatMessage db' = ChatMessage db
           \<and> cp_label row = label \<and> cp_createdAt row = now
           \<and> (\<forall>n. msg_id m = IdNumber n \<or> msg_id m = IdString (string_of_nat n) \<longrightarrow>
                  cp_messageId row = SqlInteger n)))"
  by (auto simp: createCheckpoint_def Let_def integer_affinity_def)

theorem createCheckpoint_validation_witness:
  "createCheckpoint ''before refactor'' None 1000 chain_db =
     Inl (Error ''Invalid currentMessage provided for checkpoint creation'')
   \<and> createCheckpoint ''before refactor'' (Some \<lparr>msg_id = IdUndefined\<rparr>) 1000 chain_db =
     Inl (Error ''Invalid currentMessage provided for checkpoint creation'')
   \<and> (\<exists>row db'. createCheckpoint ''before refactor'' (Some \<lparr>msg_id = IdNumber 4\<rparr>) 1000 chain_db =
        Inr (row, db') \<and> Checkpoint db' = [row] \<and> cp_messageId row = SqlInteger 4)
   \<and> (\<exists>row db'. createCheckpoint ''before refactor'' (Some \<lparr>msg_id = IdString ''4''\<rparr>) 1000 chain_db =
        Inr (row, db') \<and> Checkpoint db' = [row] \<and> cp_messageId row = SqlInteger 4)
   \<and> resolves chain_db (IdNumber 4)"
proof -
  have a: "createCheckpoint ''before refactor'' None 1000 chain_db =
      Inl (Error ''Invalid currentMessage provided for checkpoint creation'')"
    using createCheckpoint_validation [of None "''before refactor''" 1000 chain_db] by simp
  have b: "createCheckpoint ''before refactor'' (Some \<lparr>msg_id = IdUndefined\<rparr>) 1000 chain_db =
      Inl (Error ''Invalid currentMessage provided for checkpoint creation'')"
    using createCheckpoint_validation
      [of "Some \<lparr>msg_id = IdUndefined\<rparr>" "''before refactor''" 1000 chain_db] by simp
  have empty: "Checkpoint chain_db = []"
    by (simp add: chain_db_def empty_chat_db_def)
  have num4: "Some \<lparr>msg_id = IdNumber 4\<rparr> = Some \<lparr>msg_id = IdNumber 4\<rparr>
      \<and> \<not> falsy_id (msg_id \<lparr>msg_id = IdNumber 4\<rparr>)"
    by simp
  from createCheckpoint_validation
      [of "Some \<lparr>msg_id = IdNumber 4\<rparr>" "''before refactor''" 1000 chain_db,
       THEN conjunct2, rule_format, OF num4]
  obtain row db' where r:
    "createCheckpoint ''before refactor'' (Some \<lparr>msg_id = IdNumber 4\<rparr>) 1000 chain_db = Inr (row, db')"
    "Checkpoint db' = Checkpoint chain_db @ [row]"
    "\<forall>n. msg_id \<lparr>msg_id = IdNumber 4\<rparr> = IdNumber n
        \<or> msg_id \<lparr>msg_id = IdNumber 4\<rparr> = IdString (string_of_nat n) \<longrightarrow>
        cp_messageId row = SqlInteger n"
    by (elim exE conjE)
  from r(3) have "cp_messageId row = SqlInteger 4"
    by (elim allE [of _ 4]) simp
  with r(1,2) have c: "\<exists>row db'. createCheckpoint ''before refactor'' (Some \<lparr>msg_id = IdNumber 4\<rparr>) 1000 chain_db =
        Inr (row, db') \<and> Checkpoint db' = [row] \<and> cp_messageId row = SqlInteger 4"
    by (simp add: empty)
  have str4: "Some \<lparr>msg_id = IdString ''4''\<rparr> = Some \<lparr>msg_id = IdString ''4''\<rparr>
      \<and> \<not> falsy_id (msg_id \<lparr>msg_id = IdString ''4''\<rparr>)"
    by simp
  from createCheckpoint_validation
      [of "Some \<lparr>msg_id = IdString ''4''\<rparr>" "''before refactor''" 1000 chain_db,
       THEN conjunct2, rule_format, OF str4]
  obtain row' db'' where r':
    "createCheckpoint ''before refactor'' (Some \<lparr>msg_id = IdString ''4''\<rparr>) 1000 chain_db = Inr (row', db'')"
    "Checkpoint db'' = Checkpoint chain_db @ [row']"
    "\<forall>n. msg_id \<lparr>msg_id = IdString ''4''\<rparr> = IdNumber n
        \<or> msg_id \<lparr>msg_id = IdString ''4''\<rparr> = IdString (string_of_nat n) \<longrightarrow>
        cp_messageId row' = SqlInteger n"
    by (elim exE conjE)
  from r'(3) have "cp_messageId row' = SqlInteger 4"
    by (elim allE [of _ 4]) simp
  with r'(1,2) have d: "\<exists>row db'. createCheckpoint ''before refactor'' (Some \<lparr>msg_id = IdString ''4''\<rparr>) 1000 chain_db =
        Inr (row, db') \<and> Checkpoint db' = [row] \<and> cp_messageId row = SqlInteger 4"
    by (simp add: empty)
  have e: "resolves chain_db (IdNumber 4)"
    by (simp add: resolves_def chain_db_def turn_def)
  from a b c d e show ?thesis by (intro conjI)
qed

theorem createCheckpoint_unknown_turn_counterexample:
  "\<not> resolves empty_chat_db (IdNumber 42)
   \<and> createCheckpoint ''before refactor'' (Some \<lparr>msg_id = IdNumber 42\<rparr>) 1000 empty_chat_db =
       Inr (\<lparr>cp_id = 1, cp_label = ''before refactor'', cp_messageId = SqlInteger 42,
              cp_createdAt = 1000\<rparr>,
            empty_chat_db
              \<lparr>Checkpoint := [\<lparr>cp_id = 1, cp_label = ''before refactor'',
                                cp_messageId = SqlInteger 42, cp_createdAt = 1000\<rparr>],
               Checkpoint_seq := 1\<rparr>)"
  by (simp add: resolves_def createCheckpoint_def empty_chat_db_def next_rowid_def Let_def)

section \<open>Properties of the command history\<close>

lemma add_config [simp]: "config (add now faults command this) = config this"
  by (simp add: add_def Let_def)

lemma add_limit [simp]: "limit_or_200 (add now faults command this) = limit_or_200 this"
  by (simp add: limit_or_200_def)

lemma add_blacklisted [simp]: "blacklisted (add now faults command this) c = blacklisted this c"
  by (simp add: blacklisted_def)

lemma limit_or_200_positive: "0 < limit_or_200 this"
  by (simp add: limit_or_200_def)

lemma add_history:
  assumes "\<not> list_all is_whitespace command" and "\<not> blacklisted this command"
    and "history this \<noteq> [] \<Longrightarrow> last (history this) \<noteq> command"
  shows "history (add now no_faults command this) =
           drop (length (history this @ [command]) - limit_or_200 this) (history this @ [command])"
  using assms by (auto simp: add_def Let_def no_faults_def)

lemma drop_last_window:
  "drop (length (drop (length xs - n) xs @ ys) - n) (drop (length xs - n) xs @ ys) =
   drop (length (xs @ ys) - n) (xs @ ys)"
proof -
  have "drop (length xs - n) xs @ ys = drop (length xs - n) (xs @ ys)" by simp
  moreover have "length (drop (length xs - n) xs @ ys) - n + (length xs - n) = length (xs @ ys) - n"
    by auto
  ultimately show ?thesis by (simp only: drop_drop)
qed

lemma add_all_history:
  assumes "calls \<noteq> []"
    and "\<forall>c \<in> set (map snd calls). \<not> list_all is_whitespace c \<and> \<not> blacklisted this c"
    and "distinct (map snd calls)"
    and "history this \<noteq> [] \<Longrightarrow> last (history this) \<noteq> snd (hd calls)"
  shows "history (add_all calls this) =
           drop (length (history this @ map snd calls) - limit_or_200 this)
             (history this @ map snd calls)"
  using assms
proof (induction calls arbitrary: this)
  case Nil
  then show ?case by simp
next
  case (Cons call calls)
  obtain now c where call: "call = (now, c)" by (cases call)
  let ?next = "add now no_faults c this"
  have step: "history ?next = drop (length (history this @ [c]) - limit_or_200 this) (history this @ [c])"
    using Cons.prems call by (intro add_history) auto
  show ?case
  proof (cases "calls = []")
    case True
    with step call show ?thesis by simp
  next
    case False
    have nonempty: "history ?next \<noteq> []"
      using step limit_or_200_positive [of this] by auto
    have "last (history ?next) = c"
      using step limit_or_200_positive [of this] by (simp add: last_drop)
    moreover have "c \<noteq> snd (hd calls)"
      using Cons.prems(3) call False by (cases calls) auto
    ultimately have adj: "last (history ?next) \<noteq> snd (hd calls)" by simp
    have "history (add_all calls ?next) =
        drop (length (history ?next @ map snd calls) - limit_or_200 ?next)
          (history ?next @ map snd calls)"
      using False Cons.prems adj by (intro Cons.IH) auto
    also have "\<dots> = drop (length ((history this @ [c]) @ map snd calls) - limit_or_200 this)
          ((history this @ [c]) @ map snd calls)"
      unfolding step add_limit by (rule drop_last_window)
    finally show ?thesis using call by simp
  qed
qed

text \<open>
  C8. From any starting state, after \<open>limit + k\<close> calls of \<open>add\<close> with distinct commands
  that are not blank and not blacklisted, the first of them different from the last entry
  already in the history, \<open>getAll\<close> returns exactly \<open>limit\<close> entries: the last \<open>limit\<close>
  commands added, in the order in which they were added. Here \<open>limit\<close> is the limit in
  force, \<open>200\<close> by default, and \<open>k\<close> is any number, \<open>5\<close> for one.
\<close>

theorem add_eviction_bound:
  assumes "length calls = limit_or_200 this + k"
    and "\<forall>c \<in> set (map snd calls). \<not> list_all is_whitespace c \<and> \<not> blacklisted this c"
    and "distinct (map snd calls)"
    and "history this \<noteq> [] \<Longrightarrow> last (history this) \<noteq> snd (hd calls)"
  shows "getAll (add_all calls this) = drop k (map snd calls)
       \<and> length (getAll (add_all calls this)) = limit_or_200 this"
proof -
  have "calls \<noteq> []"
    using assms(1) limit_or_200_positive [of this] by auto
  then have main: "history (add_all calls this) =
      drop (length (history this @ map snd calls) - limit_or_200 this)
        (history this @ map snd calls)"
    using assms(2,3,4) by (rule add_all_history)
  have e: "length (history this @ map snd calls) - limit_or_200 this = length (history this) + k"
    using assms(1) by simp
  have "history (add_all calls this) =
      drop (length (history this) + k) (history this @ map snd calls)"
    using main unfolding e .
  then have "history (add_all calls this) = drop k (map snd calls)"
    by simp
  then show ?thesis using assms(1) by (simp add: getAll_def)
qed

theorem add_eviction_bound_witness:
  "getAll (add_all [(10, ''ls''), (11, ''cd src''), (11, ''make'')]
     ((new_cli_history [] 0 \<lparr>opt_limit = Some 2, opt_blacklist = Some [''exit'']\<rparr>)
        \<lparr>history := [''pwd'', ''git status'']\<rparr>)) = [''cd src'', ''make'']
   \<and> limit_or_200 (new_cli_history [] 0 \<lparr>opt_limit = None, opt_blacklist = None\<rparr>) = 200"
proof -
  let ?start = "(new_cli_history [] 0 \<lparr>opt_limit = Some 2, opt_blacklist = Some [''exit'']\<rparr>)
        \<lparr>history := [''pwd'', ''git status'']\<rparr>"
  let ?calls = "[(10::int, ''ls''), (11, ''cd src''), (11, ''make'')]"
  have lim: "limit_or_200 ?start = 2"
    by (simp add: limit_or_200_def new_cli_history_def)
  have h1: "length ?calls = limit_or_200 ?start + 1"
    by (simp add: lim)
  have h2: "\<forall>c \<in> set (map snd ?calls). \<not> list_all is_whitespace c \<and> \<not> blacklisted ?start c"
    by (simp add: blacklisted_def new_cli_history_def is_whitespace_def)
  have h3: "distinct (map snd ?calls)"
    by simp
  have h4: "history ?start \<noteq> [] \<Longrightarrow> last (history ?start) \<noteq> snd (hd ?calls)"
    by simp
  have "getAll (add_all ?calls ?start) = drop 1 (map snd ?calls)"
    using add_eviction_bound [OF h1 h2 h3 h4] by (rule conjunct1)
  moreover have "drop 1 (map snd ?calls) = [''cd src'', ''make'']"
    by simp
  ultimately have "getAll (add_all ?calls ?start) = [''cd src'', ''make'']"
    by (rule trans)
  moreover have "limit_or_200 (new_cli_history [] 0 \<lparr>opt_limit = None, opt_blacklist = None\<rparr>) = 200"
    by (simp add: limit_or_200_def new_cli_history_def)
  ultimately show ?thesis by (rule conjI)
qed

section \<open>Properties of storeChat and retrieveMessageById\<close>

lemma title_group_Some:
  "title_group s k = Some n \<Longrightarrow>
     0 < n \<and> n \<le> k \<and> title_boundary s n \<and> (\<forall>m. n < m \<and> m \<le> k \<longrightarrow> \<not> title_boundary s m)"
proof (induction k)
  case 0
  then show ?case by simp
next
  case (Suc k)
  show ?case
  proof (cases "title_boundary s (Suc k)")
    case True
    with Suc.prems show ?thesis by auto
  next
    case False
    with Suc.prems have "title_group s k = Some n" by simp
    from Suc.IH [OF this] False show ?thesis
      by (auto simp: le_Suc_eq)
  qed
qed

lemma title_group_None:
  "title_group s k = None \<Longrightarrow> \<forall>m. 0 < m \<and> m \<le> k \<longrightarrow> \<not> title_boundary s m"
proof (induction k)
  case 0
  then show ?case by simp
next
  case (Suc k)
  then have "\<not> title_boundary s (Suc k)" and "title_group s k = None"
    by (auto split: if_splits)
  with Suc.IH show ?case by (auto simp: le_Suc_eq)
qed

lemma single_line_takeWhile:
  "\<not> list_ex is_line_terminator s \<Longrightarrow> takeWhile (\<lambda>c. \<not> is_line_terminator c) s = s"
  by (induction s) auto

lemma single_line_match_end:
  assumes "\<not> list_ex is_line_terminator s" and "n \<le> length s"
  shows "match_end s n = length s"
proof -
  have "\<not> list_ex is_line_terminator (drop (Suc n) s)"
    using assms(1) by (auto simp: list_ex_iff dest: in_set_dropD)
  then have tw: "takeWhile (\<lambda>c. \<not> is_line_terminator c) (drop (Suc n) s) = drop (Suc n) s"
    by (rule single_line_takeWhile)
  show ?thesis unfolding match_end_def tw using assms(2) by auto
qed

text \<open>The title cut from a text of one line.\<close>

lemma replace_title_single_line:
  assumes "\<not> list_ex is_line_terminator c"
  shows "prefix (replace_title c) c
       \<and> (length c \<le> 100 \<longrightarrow> replace_title c = c)
       \<and> (replace_title c \<noteq> c \<longrightarrow>
            replace_title c \<noteq> [] \<and> length (replace_title c) \<le> 100
            \<and> length (replace_title c) < length c
            \<and> is_whitespace (c ! length (replace_title c))
            \<and> (\<forall>m. length (replace_title c) < m \<and> m \<le> 100 \<and> m < length c
                   \<longrightarrow> \<not> is_whitespace (c ! m)))
       \<and> (replace_title c = c \<and> 100 < length c \<longrightarrow>
            (\<forall>m. 0 < m \<and> m \<le> 100 \<longrightarrow> \<not> is_whitespace (c ! m)))"
proof -
  let ?k = "min 100 (length c)"
  have run: "takeWhile (\<lambda>c. \<not> is_line_terminator c) c = c"
    using assms by (rule single_line_takeWhile)
  show ?thesis
  proof (cases "title_group c ?k")
    case None
    then have t: "replace_title c = c" by (simp add: replace_title_def run)
    have nb: "\<forall>m. 0 < m \<and> m \<le> ?k \<longrightarrow> \<not> title_boundary c m"
      using None by (rule title_group_None)
    have "100 < length c \<longrightarrow> (\<forall>m. 0 < m \<and> m \<le> 100 \<longrightarrow> \<not> is_whitespace (c ! m))"
    proof (intro impI allI)
      fix m :: nat assume "100 < length c" and m: "0 < m \<and> m \<le> 100"
      then have "\<not> title_boundary c m" using nb by simp
      with \<open>100 < length c\<close> m show "\<not> is_whitespace (c ! m)"
        by (simp add: title_boundary_def)
    qed
    with t show ?thesis by simp
  next
    case (Some n)
    note g = title_group_Some [OF Some]
    then have n: "0 < n" "n \<le> 100" "n \<le> length c" by auto
    have t: "replace_title c = take n c"
      using Some n single_line_match_end [OF assms n(3)] by (simp add: replace_title_def run)
    have len: "length (replace_title c) = n" using t n by simp
    show ?thesis
    proof (cases "n = length c")
      case True
      with t have tc: "replace_title c = c" by simp
      have "100 < length c \<longrightarrow> False" using True n by simp
      with tc show ?thesis by auto
    next
      case False
      with n have lt: "n < length c" by simp
      then have ne: "replace_title c \<noteq> c" using len by auto
      have ws: "is_whitespace (c ! n)"
        using g lt by (simp add: title_boundary_def)
      have mx: "\<forall>m. n < m \<and> m \<le> 100 \<and> m < length c \<longrightarrow> \<not> is_whitespace (c ! m)"
      proof (intro allI impI)
        fix m :: nat assume m: "n < m \<and> m \<le> 100 \<and> m < length c"
        then have "\<not> title_boundary c m" using g by simp
        with m show "\<not> is_whitespace (c ! m)" by (simp add: title_boundary_def)
      qed
      have long: "\<not> length c \<le> 100"
      proof
        assume le: "length c \<le> 100"
        then have "title_boundary c (length c)" by (simp add: title_boundary_def)
        moreover have "\<not> title_boundary c (length c)"
          using g lt le by simp
        ultimately show False by simp
      qed
      have pre: "prefix (replace_title c) c" unfolding t by (rule take_is_prefix)
      have "c \<noteq> []" using lt by auto
      with pre ne ws mx long len n lt show ?thesis
        by (simp add: t)
    qed
  qed
qed

lemma insert_ChatMessage_Inr:
  assumes "insert_ChatMessage db sessionId prev request response now = Inr (msg, db')"
  shows "ChatMessage db' = ChatMessage db @ [msg] \<and> ChatSession db' = ChatSession db
       \<and> cm_id msg \<notin> cm_id ` set (ChatMessage db)
       \<and> cm_request msg = request \<and> cm_response msg = Some response
       \<and> sessionId = Some (cm_sessionId msg)"
proof -
  let ?i = "next_rowid (map cm_id (ChatMessage db)) (ChatMessage_seq db)"
  have fresh: "?i \<notin> cm_id ` set (ChatMessage db)"
    using next_rowid_fresh [of "map cm_id (ChatMessage db)" "ChatMessage_seq db"] by simp
  from assms fresh show ?thesis
    by (auto simp: insert_ChatMessage_def Let_def split: option.splits if_splits)
qed



lemma string_of_int_nat [simp]: "string_of_int (int n) = string_of_nat n"
  by (simp add: string_of_int_def)

text \<open>On a text of decimal digits \<open>parseInt\<close> gives the number that the digits spell.\<close>

lemma parseInt_digits:
  assumes "s \<noteq> []" and "list_all is_digit s"
  shows "parseInt s = Some (int (digits_value s))"
proof -
  from assms(1) obtain c cs where s: "s = c # cs" by (cases s) auto
  with assms(2) have c: "is_digit c" and cs: "list_all is_digit cs" by simp_all
  from c have lead: "\<not> is_whitespace c" "c \<noteq> CHR ''-''" "c \<noteq> CHR ''+''"
    by (auto simp: is_digit_def is_whitespace_def)
  have prefix: "take 2 s \<noteq> ''0x''" "take 2 s \<noteq> ''0X''"
    using s cs by (cases cs; auto simp: is_digit_def)+
  have run: "takeWhile is_digit s = s"
    using assms(2) by (simp add: takeWhile_eq_all_conv list_all_iff)
  have trimmed: "dropWhile is_whitespace s = s"
    using s lead(1) by simp
  have sign: "take 1 s \<noteq> ''-''" "take 1 s \<noteq> ''+''"
    using s lead(2,3) by simp_all
  show ?thesis
    unfolding parseInt_def Let_def trimmed
    using sign prefix assms(1) by (simp add: run del: takeWhile_eq_all_conv)
qed

lemma parseInt_string_of_nat [simp]: "parseInt (string_of_nat n) = Some (int n)"
  using parseInt_digits [of "string_of_nat n"]
  by (simp add: string_of_nat_nonempty string_of_nat_digits digits_value_string_of_nat)

lemma integer_affinity_string_of_nat [simp]: "integer_affinity (string_of_nat n) = SqlInteger n"
  by (simp add: integer_affinity_def)


lemma storeChat_sessions:
  assumes "truthy_sessionId currentMessage = None"
  shows "ChatSession (snd (storeChat J now currentMessage request response db)) =
           ChatSession db @
             [\<lparr>cs_id = next_rowid (map cs_id (ChatSession db)) (ChatSession_seq db),
               cs_title = Some (session_title request), cs_createdAt = now\<rparr>]"
proof -
  obtain chatSession db1 where ins: "insert_ChatSession db (session_title request) now = (chatSession, db1)"
    by (cases "insert_ChatSession db (session_title request) now")
  then have s1: "ChatSession db1 = ChatSession db @
      [\<lparr>cs_id = next_rowid (map cs_id (ChatSession db)) (ChatSession_seq db),
        cs_title = Some (session_title request), cs_createdAt = now\<rparr>]"
    by (auto simp: insert_ChatSession_def Let_def)
  let ?ins = "insert_ChatMessage db1 (Some (int (cs_id chatSession)))
      (case currentMessage of None \<Rightarrow> SqlNull | Some m \<Rightarrow> integer_affinity (scm_id m))
      (stringify_request J request) (stringify_response J response) now"
  show ?thesis
  proof (cases ?ins)
    case (Inl e)
    then have "snd (storeChat J now currentMessage request response db) = db1"
      using assms ins by (simp add: storeChat_def)
    with s1 show ?thesis by simp
  next
    case (Inr r)
    obtain msg db2 where r: "r = (msg, db2)" by (cases r)
    have "snd (storeChat J now currentMessage request response db) = db2"
      using assms ins Inr r by (simp add: storeChat_def)
    moreover have "ChatSession db2 = ChatSession db1"
      using insert_ChatMessage_Inr [OF Inr [unfolded r]] by simp
    ultimately show ?thesis using s1 by simp
  qed
qed

text \<open>
  C9 (as the code has it). When \<open>storeChat\<close> is called without a current session id it
  adds one session, whose title is derived from the content of the last message of the
  request: \<^verbatim>\<open>New Chat\<close> when there is no such content; otherwise the content after the
  replacement. For a content of one line the title is a prefix of it: the whole content
  when it has at most 100 characters; else the longest prefix of at most 100 characters
  that a whitespace character follows (the last whitespace boundary at or before the
  cutoff); and the whole content again, however long, when no whitespace character
  stands at the positions \<open>1\<close> to \<open>100\<close>.
\<close>

theorem storeChat_session_title:
  assumes "truthy_sessionId currentMessage = None"
  shows "\<exists>session.
           ChatSession (snd (storeChat J now currentMessage request response db)) =
             ChatSession db @ [session]
           \<and> cs_title session = Some (session_title request)
           \<and> (last_content request = None \<longrightarrow> session_title request = ''New Chat'')
           \<and> (\<forall>c. last_content request = Some c \<and> \<not> list_ex is_line_terminator c \<longrightarrow>
                 prefix (session_title request) c
                 \<and> (length c \<le> 100 \<longrightarrow> session_title request = c)
                 \<and> (session_title request \<noteq> c \<longrightarrow>
                      session_title request \<noteq> [] \<and> length (session_title request) \<le> 100
                      \<and> length (session_title request) < length c
                      \<and> is_whitespace (c ! length (session_title request))
                      \<and> (\<forall>m. length (session_title request) < m \<and> m \<le> 100 \<and> m < length c
                             \<longrightarrow> \<not> is_whitespace (c ! m)))
                 \<and> (session_title request = c \<and> 100 < length c \<longrightarrow>
                      (\<forall>m. 0 < m \<and> m \<le> 100 \<longrightarrow> \<not> is_whitespace (c ! m))))"
proof -
  let ?session = "\<lparr>cs_id = next_rowid (map cs_id (ChatSession db)) (ChatSession_seq db),
      cs_title = Some (session_title request), cs_createdAt = now\<rparr>"
  have a: "ChatSession (snd (storeChat J now currentMessage request response db)) =
      ChatSession db @ [?session]"
    using assms by (rule storeChat_sessions)
  have b: "cs_title ?session = Some (session_title request)" by simp
  have c: "last_content request = None \<longrightarrow> session_title request = ''New Chat''"
    by (simp add: session_title_def)
  have d: "\<forall>c. last_content request = Some c \<and> \<not> list_ex is_line_terminator c \<longrightarrow>
                 prefix (session_title request) c
                 \<and> (length c \<le> 100 \<longrightarrow> session_title request = c)
                 \<and> (session_title request \<noteq> c \<longrightarrow>
                      session_title request \<noteq> [] \<and> length (session_title request) \<le> 100
                      \<and> length (session_title request) < length c
                      \<and> is_whitespace (c ! length (session_title request))
                      \<and> (\<forall>m. length (session_title request) < m \<and> m \<le> 100 \<and> m < length c
                             \<longrightarrow> \<not> is_whitespace (c ! m)))
                 \<and> (session_title request = c \<and> 100 < length c \<longrightarrow>
                      (\<forall>m. 0 < m \<and> m \<le> 100 \<longrightarrow> \<not> is_whitespace (c ! m)))"
  proof (intro allI impI)
    fix c assume h: "last_content request = Some c \<and> \<not> list_ex is_line_terminator c"
    then have t: "session_title request = replace_title c" by (simp add: session_title_def)
    from h have "\<not> list_ex is_line_terminator c" by simp
    from replace_title_single_line [OF this] show
      "prefix (session_title request) c
       \<and> (length c \<le> 100 \<longrightarrow> session_title request = c)
       \<and> (session_title request \<noteq> c \<longrightarrow>
            session_title request \<noteq> [] \<and> length (session_title request) \<le> 100
            \<and> length (session_title request) < length c
            \<and> is_whitespace (c ! length (session_title request))
            \<and> (\<forall>m. length (session_title request) < m \<and> m \<le> 100 \<and> m < length c
                   \<longrightarrow> \<not> is_whitespace (c ! m)))
       \<and> (session_title request = c \<and> 100 < length c \<longrightarrow>
            (\<forall>m. 0 < m \<and> m \<le> 100 \<longrightarrow> \<not> is_whitespace (c ! m)))"
      unfolding t .
  qed
  show ?thesis
  proof (intro exI conjI)
    show "ChatSession (snd (storeChat J now currentMessage request response db)) =
        ChatSession db @ [?session]" by (rule a)
  qed (rule b c d)+
qed

theorem storeChat_session_title_witness:
  "map cs_title (ChatSession (snd (storeChat example_JSON 5 None
       \<lparr>messages = Some [\<lparr>content = Some ''first question''\<rparr>, \<lparr>content = Some ''hello world''\<rparr>]\<rparr>
       True empty_chat_db))) = [Some ''hello world'']
   \<and> map cs_title (ChatSession (snd (storeChat example_JSON 5 None
       \<lparr>messages = None\<rparr> True empty_chat_db))) = [Some ''New Chat'']"
proof -
  let ?q = "\<lparr>messages = Some [\<lparr>content = Some ''first question''\<rparr>, \<lparr>content = Some ''hello world''\<rparr>]\<rparr>"
  let ?n = "\<lparr>messages = None\<rparr> :: Body"
  let ?cut = "\<lambda>t c. prefix t c
       \<and> (length c \<le> 100 \<longrightarrow> t = c)
       \<and> (t \<noteq> c \<longrightarrow>
            t \<noteq> [] \<and> length t \<le> 100 \<and> length t < length c \<and> is_whitespace (c ! length t)
            \<and> (\<forall>m. length t < m \<and> m \<le> 100 \<and> m < length c \<longrightarrow> \<not> is_whitespace (c ! m)))
       \<and> (t = c \<and> 100 < length c \<longrightarrow> (\<forall>m. 0 < m \<and> m \<le> 100 \<longrightarrow> \<not> is_whitespace (c ! m)))"
  have none: "truthy_sessionId (None :: (Body, bool) StoredChatMessage option) = None"
    by (simp add: truthy_sessionId_def)
  have lc: "last_content ?q = Some ''hello world''" and ln: "last_content ?n = None"
    by (simp_all add: last_content_def)
  have line: "\<not> list_ex is_line_terminator ''hello world''"
    by (simp add: is_line_terminator_def)
  obtain s where s: "ChatSession (snd (storeChat example_JSON 5 None ?q True empty_chat_db)) =
        ChatSession empty_chat_db @ [s]"
      "cs_title s = Some (session_title ?q)"
      "\<forall>c. last_content ?q = Some c \<and> \<not> list_ex is_line_terminator c \<longrightarrow>
         ?cut (session_title ?q) c"
    using storeChat_session_title [OF none, of example_JSON 5 ?q True empty_chat_db]
    by (elim exE conjE) (rule that)
  from s(3) lc line have "?cut (session_title ?q) ''hello world''"
    by (elim allE [of _ "''hello world''"] impE) (intro conjI, assumption+)
  then have "length ''hello world'' \<le> 100 \<longrightarrow> session_title ?q = ''hello world''"
    by (elim conjE)
  then have "session_title ?q = ''hello world''" by simp
  with s(1,2) have a: "map cs_title (ChatSession (snd (storeChat example_JSON 5 None ?q True
      empty_chat_db))) = [Some ''hello world'']"
    by (simp add: empty_chat_db_def)
  obtain s' where s': "ChatSession (snd (storeChat example_JSON 5 None ?n True empty_chat_db)) =
        ChatSession empty_chat_db @ [s']"
      "cs_title s' = Some (session_title ?n)"
      "last_content ?n = None \<longrightarrow> session_title ?n = ''New Chat''"
    using storeChat_session_title [OF none, of example_JSON 5 ?n True empty_chat_db]
    by (elim exE conjE) (rule that)
  from s'(3) ln have "session_title ?n = ''New Chat''" by (rule mp)
  with s'(1,2) have b: "map cs_title (ChatSession (snd (storeChat example_JSON 5 None ?n True
      empty_chat_db))) = [Some ''New Chat'']"
    by (simp add: empty_chat_db_def)
  from a b show ?thesis by (rule conjI)
qed

theorem session_title_cutoff_counterexample:
  "session_title \<lparr>messages = Some [\<lparr>content = Some
       (replicate 60 (CHR ''a'') @ '' '' @ replicate 60 (CHR ''b'') @ '' c'')\<rparr>]\<rparr>
     = replicate 60 (CHR ''a'')
   \<and> \<not> list_ex is_whitespace
         (take 21 (drop 100 (replicate 60 (CHR ''a'') @ '' '' @ replicate 60 (CHR ''b'') @ '' c'')))
   \<and> is_whitespace ((replicate 60 (CHR ''a'') @ '' '' @ replicate 60 (CHR ''b'') @ '' c'') ! 121)
   \<and> session_title \<lparr>messages = Some [\<lparr>content = Some (replicate 150 (CHR ''a''))\<rparr>]\<rparr>
     = replicate 150 (CHR ''a'')
   \<and> session_title \<lparr>messages = Some [\<lparr>content = Some ''''\<rparr>]\<rparr> = ''''"
  by code_simp



end
